theory Spec2Isabelle
  imports Main "HOL-Library.Word"
begin

section \<open>Vulkan rendering context: recording state machine and fence-wait dispatcher\<close>

text \<open>
  A shallow embedding of \<^verbatim>\<open>vita3k/renderer/src/vulkan/context.cpp\<close>.

  Vulkan objects (fences, command buffers, pools, render passes, image views) are opaque
  handles, modelled as natural numbers. Every call into the device, a command buffer, the
  surface cache, the pipeline cache or the logger is an \<open>event\<close> appended to a trace, in
  the order the code issues it. Pointers to render targets are indices into a store held
  by the context, so that the aliasing between \<^verbatim>\<open>context.render_target\<close>,
  \<^verbatim>\<open>context.current_render_target\<close> and the argument of \<^verbatim>\<open>set_context\<close> is kept.
  Dereferencing a null or dangling pointer and indexing a container out of range are
  undefined behaviour in the source; the model returns an error value there.
\<close>

subsection \<open>Handles, notifications and completion requests\<close>

type_synonym handle = nat
type_synonym fence = nat
type_synonym cmd_buffer = nat

text \<open>\<^verbatim>\<open>SceGxmNotification\<close>: a guest address (0 is the null pointer) and the value to store.\<close>

record SceGxmNotification =
  n_address :: "32 word"
  n_value :: "32 word"

text \<open>The variant popped by the wait thread. \<^verbatim>\<open>NotificationRequest\<close> holds
  \<^verbatim>\<open>notifications[0]\<close>, \<^verbatim>\<open>notifications[1]\<close> and the fence.\<close>

datatype request =
    NotificationRequest SceGxmNotification SceGxmNotification fence
  | FrameDoneRequest "64 word"
  | PostSurfaceSyncRequest handle

datatype error = NullPointer | OutOfBounds | AssertionFailure

datatype mutex = notification_mutex | new_frame_mutex

datatype vk_format = eR8G8B8A8Unorm | eR8G8B8A8Srgb | OtherFormat nat

datatype color_base_format = SCE_GXM_COLOR_BASE_FORMAT_U8U8U8U8 | OtherBaseFormat nat

subsection \<open>Surfaces\<close>

text \<open>The fields of \<^verbatim>\<open>SceGxmColorSurface\<close> and \<^verbatim>\<open>SceGxmDepthStencilSurface\<close> the file
  reads. \<open>data\<close>, \<open>depthData\<close> and \<open>stencilData\<close> are guest addresses; \<open>control_content\<close> is
  \<^verbatim>\<open>control.content\<close>.\<close>

record SceGxmColorSurface =
  downscale :: bool
  gamma :: nat
  data :: "32 word"
  colorFormat :: "32 word"

record SceGxmDepthStencilSurface =
  depthData :: "32 word"
  stencilData :: "32 word"
  zlsControl :: "32 word"
  backgroundDepth :: nat
  control_content :: "32 word"

subsection \<open>Observable calls\<close>

text \<open>
  One constructor per external call, with the arguments the code passes. Extents are
  given as natural numbers (the unsigned value of the field). \<open>BeginRenderPass\<close> carries
  the command buffer, render pass, framebuffer, width, height, the clear depth and
  \<^verbatim>\<open>control.content\<close> (from which the stencil clear value is masked).
\<close>

datatype event =
    LogError string
  | LogWarn string
  | AllocateCommandBuffers handle cmd_buffer
  | CreateFence fence
  | CmdBegin "cmd_buffer option"
  | CmdEnd "cmd_buffer option"
  | SetViewport "cmd_buffer option"
  | SetScissor "cmd_buffer option"
  | SyncDepthBias
  | SyncPointLineWidth bool
  | SyncStencilFunc bool
  | SyncMask
  | BeginRenderPass "cmd_buffer option" handle handle nat nat nat "32 word"
  | EndRenderPass "cmd_buffer option"
  | AllocateDescriptorSets handle handle
  | UpdateDescriptorSets nat handle handle handle
  | EndQuery "cmd_buffer option" handle nat
  | CopyQueryPoolResults "cmd_buffer option" handle int
  | PerformSurfaceSync "handle option"
  | QueueSubmit "cmd_buffer option list" fence
  | SetRenderTarget "nat option"
  | RetrieveRenderPass vk_format "32 word"
  | RetrieveFramebuffer "SceGxmColorSurface option" "SceGxmDepthStencilSurface option" handle nat nat
  | WaitForFences "fence list" bool
  | MutexLock mutex
  | MutexUnlock mutex
  | GuestWrite "32 word" "32 word"
  | NotifyAll
  | NotifyOne
  | PerformPostSurfaceSync handle

subsection \<open>Render targets, frames and the context\<close>

text \<open>
  \<^verbatim>\<open>VKRenderTarget\<close>. Width and height are unsigned machine integers (they initialise a
  \<^verbatim>\<open>vk::Extent2D\<close> without a cast); their bit width \<open>'w\<close> is left open, since the
  declaration is in a header. \<open>cmd_buffers\<close> and \<open>pre_cmd_buffers\<close> have one vector per
  in-flight frame. The indices never exceed the size of a vector held in memory, so they
  are natural numbers.
\<close>

record (overloaded) ('w::len) VKRenderTarget =
  width :: "'w word"
  height :: "'w word"
  multisample_mode :: nat
  mask_view :: handle
  cmd_buffers :: "cmd_buffer list list"
  pre_cmd_buffers :: "cmd_buffer list list"
  fences :: "fence list"
  fence_idx :: nat
  cmd_buffer_idx :: nat
  last_used_frame :: "64 word"

record FrameObject =
  render_pool :: handle
  prerender_pool :: handle
  descriptor_pool :: handle
  rendered_fences :: "fence list"

record GxmRecordState =
  color_surface :: SceGxmColorSurface
  depth_stencil_surface :: SceGxmDepthStencilSurface
  color_base_format :: color_base_format
  is_gamma_corrected :: bool
  is_maskupdate :: bool
  two_sided :: bool

text \<open>
  \<^verbatim>\<open>VKContext\<close>, with the parts of \<^verbatim>\<open>VKState\<close> the file reads (the feature flags,
  \<^verbatim>\<open>disable_surface_sync\<close>, the attachments layout) and the function-local static
  \<^verbatim>\<open>has_happened\<close>. \<open>next_handle\<close> is the device's supply of new handles: each
  allocation returns it and increments it. \<open>record_state\<close> is the member \<^verbatim>\<open>record\<close>.
\<close>

record (overloaded) ('w::len) VKContext =
  render_targets :: "'w VKRenderTarget list"
  render_target :: "nat option"
  current_render_target :: "nat option"
  is_recording :: bool
  in_renderpass :: bool
  is_in_query :: bool
  current_visibility_buffer :: "handle option"
  current_query_idx :: nat
  visibility_max_used_idx :: int
  frame_timestamp :: "64 word"
  scene_timestamp :: "64 word"
  current_frame_idx :: nat
  frames :: "FrameObject list"
  render_cmd :: "cmd_buffer option"
  prerender_cmd :: "cmd_buffer option"
  record_state :: GxmRecordState
  current_render_pass :: handle
  current_framebuffer :: handle
  current_color_attachment :: "handle option"
  current_ds_attachment :: "handle option"
  current_framebuffer_height :: nat
  rendertarget_set :: handle
  attachments_layout :: handle
  last_vert_texture_count :: "32 word"
  last_frag_texture_count :: "32 word"
  vertex_textures :: "handle option list"
  fragment_textures :: "handle option list"
  refresh_pipeline :: bool
  current_pipeline :: "handle option"
  request_queue :: "request list"
  support_memory_mapping :: bool
  use_mask_bit :: bool
  disable_surface_sync :: bool
  has_happened :: bool
  next_handle :: nat
  trace :: "event list"

subsection \<open>Small helpers\<close>

definition emit :: "event \<Rightarrow> 'w::len VKContext \<Rightarrow> 'w VKContext" where
  "emit e c = c\<lparr>trace := trace c @ [e]\<rparr>"

text \<open>\<^verbatim>\<open>LOG_ERROR(msg); return;\<close> the call ends with the context as it was, but for the log.\<close>

definition log_error :: "string \<Rightarrow> 'w::len VKContext \<Rightarrow> 'w VKContext" where
  "log_error msg c = emit (LogError msg) c"

text \<open>Writing through the pointer \<open>p\<close> to a render target.\<close>

definition upd_rt ::
  "nat \<Rightarrow> ('w VKRenderTarget \<Rightarrow> 'w VKRenderTarget) \<Rightarrow> 'w::len VKContext \<Rightarrow> 'w VKContext" where
  "upd_rt p f c = c\<lparr>render_targets := (render_targets c)[p := f (render_targets c ! p)]\<rparr>"

text \<open>\<^verbatim>\<open>std::vector::insert(begin() + i, x)\<close>.\<close>

definition insert_at :: "nat \<Rightarrow> 'a \<Rightarrow> 'a list \<Rightarrow> 'a list" where
  "insert_at i x xs = take i xs @ x # drop i xs"

text \<open>
  Modelled from the spec: the request queue, whose class is not in this file. It is an
  ordered sequence of requests: \<^verbatim>\<open>push\<close> adds at the back, \<^verbatim>\<open>pop\<close> takes from the
  front, and returns nothing once the queue is closed and drained.
\<close>

definition queue_push :: "request \<Rightarrow> 'w::len VKContext \<Rightarrow> 'w VKContext" where
  "queue_push r c = c\<lparr>request_queue := request_queue c @ [r]\<rparr>"

subsection \<open>\<^verbatim>\<open>VKContext::start_recording\<close>\<close>

text \<open>Lines 164-168: on a new frame the cursor goes back to 0 and the frame is noted.\<close>

definition reset_idx :: "64 word \<Rightarrow> 'w::len VKRenderTarget \<Rightarrow> 'w VKRenderTarget" where
  "reset_idx ts rt =
     (if last_used_frame rt \<noteq> ts
      then rt\<lparr>cmd_buffer_idx := 0, last_used_frame := ts\<rparr>
      else rt)"

text \<open>
  Lines 171-189, the body of the safety check: one command buffer from the frame's render
  pool, one from its prerender pool, and one fence, inserted at \<open>fence_idx\<close>. The device
  hands out \<open>next_handle\<close>, \<open>next_handle + 1\<close> and \<open>next_handle + 2\<close>.
\<close>

definition grow_pools :: "nat \<Rightarrow> 'w::len VKContext \<Rightarrow> error + 'w VKContext" where
  "grow_pools p c =
     (let rt = render_targets c ! p; i = current_frame_idx c; h = next_handle c in
      if \<not> i < length (frames c) \<or> \<not> i < length (pre_cmd_buffers rt)
         \<or> \<not> fence_idx rt \<le> length (fences rt)
      then Inl OutOfBounds
      else
        Inr (upd_rt p (\<lambda>rt. rt\<lparr>
               cmd_buffers := (cmd_buffers rt)[i := cmd_buffers rt ! i @ [h]],
               pre_cmd_buffers := (pre_cmd_buffers rt)[i := pre_cmd_buffers rt ! i @ [h + 1]],
               fences := insert_at (fence_idx rt) (h + 2) (fences rt)\<rparr>)
             (c\<lparr>has_happened := True,
                next_handle := h + 3,
                trace := trace c
                  @ (if has_happened c then []
                     else [LogWarn ''Render Target is using more scenes per frame than what was planned!''])
                  @ [AllocateCommandBuffers (render_pool (frames c ! i)) h,
                     AllocateCommandBuffers (prerender_pool (frames c ! i)) (h + 1),
                     CreateFence (h + 2)]\<rparr>)))"

text \<open>Lines 191-212: pick the two buffers at the cursor, advance it, begin both buffers and
  set the dynamic state.\<close>

definition begin_buffers :: "nat \<Rightarrow> 'w::len VKContext \<Rightarrow> error + 'w VKContext" where
  "begin_buffers p c =
     (let rt = render_targets c ! p; i = current_frame_idx c; k = cmd_buffer_idx rt in
      if \<not> i < length (cmd_buffers rt) \<or> \<not> k < length (cmd_buffers rt ! i)
         \<or> \<not> i < length (pre_cmd_buffers rt) \<or> \<not> k < length (pre_cmd_buffers rt ! i)
      then Inl OutOfBounds
      else
        (let rc = Some (cmd_buffers rt ! i ! k); pc = Some (pre_cmd_buffers rt ! i ! k) in
         Inr (upd_rt p (\<lambda>rt. rt\<lparr>cmd_buffer_idx := k + 1\<rparr>)
               (c\<lparr>render_cmd := rc,
                  prerender_cmd := pc,
                  is_recording := True,
                  trace := trace c
                    @ [CmdBegin rc, CmdBegin pc, SetViewport rc, SetScissor rc,
                       SyncDepthBias, SyncPointLineWidth True, SyncStencilFunc False]
                    @ (if two_sided (record_state c) then [SyncStencilFunc True] else [])\<rparr>))))"

definition start_recording :: "'w::len VKContext \<Rightarrow> error + 'w VKContext" where
  "start_recording c =
     (if is_recording c
      then Inr (log_error ''Attempt to start recording while already recording'' c)
      else case render_target c of
        None \<Rightarrow> Inr (log_error ''Recording started without a set command buffer'' c)
      | Some p \<Rightarrow>
          if \<not> p < length (render_targets c) then Inl NullPointer
          else
            (let c1 = upd_rt p (reset_idx (frame_timestamp c)) c;
                 rt = render_targets c1 ! p;
                 i = current_frame_idx c1
             in if \<not> i < length (cmd_buffers rt) then Inl OutOfBounds
                else if cmd_buffer_idx rt = length (cmd_buffers rt ! i)
                then (case grow_pools p c1 of
                        Inl e \<Rightarrow> Inl e
                      | Inr c2 \<Rightarrow> begin_buffers p c2)
                else begin_buffers p c1))"

subsection \<open>\<^verbatim>\<open>VKContext::start_render_pass\<close> and \<^verbatim>\<open>VKContext::stop_render_pass\<close>\<close>

text \<open>The loop of lines 227-230 sets the sampler of the first 16 texture slots to null.\<close>

definition clear_samplers :: "handle option list \<Rightarrow> handle option list" where
  "clear_samplers xs = map (\<lambda>_. None) (take 16 xs) @ drop 16 xs"

text \<open>Lines 223-287. The descriptor set is a new handle of the device.\<close>

definition begin_pass :: "'w::len VKContext \<Rightarrow> error + 'w VKContext" where
  "begin_pass c =
     (case render_target c of
        None \<Rightarrow> Inl NullPointer
      | Some p \<Rightarrow>
          if \<not> p < length (render_targets c) then Inl NullPointer
          else if \<not> current_frame_idx c < length (frames c) then Inl OutOfBounds
          else case current_color_attachment c of
            None \<Rightarrow> Inl NullPointer
          | Some color_view \<Rightarrow>
              (let rt = render_targets c ! p; h = next_handle c in
               Inr (c\<lparr>last_vert_texture_count := - 1,
                      last_frag_texture_count := - 1,
                      vertex_textures := clear_samplers (vertex_textures c),
                      fragment_textures := clear_samplers (fragment_textures c),
                      rendertarget_set := h,
                      next_handle := h + 1,
                      refresh_pipeline := True,
                      current_pipeline := None,
                      in_renderpass := True,
                      trace := trace c
                        @ [BeginRenderPass (render_cmd c) (current_render_pass c)
                             (current_framebuffer c) (unat (width rt)) (unat (height rt))
                             (backgroundDepth (depth_stencil_surface (record_state c)))
                             (control_content (depth_stencil_surface (record_state c))),
                           AllocateDescriptorSets
                             (descriptor_pool (frames c ! current_frame_idx c)) h,
                           UpdateDescriptorSets (if use_mask_bit c then 2 else 1) h
                             color_view (mask_view rt)]\<rparr>)))"

definition start_render_pass :: "'w::len VKContext \<Rightarrow> error + 'w VKContext" where
  "start_render_pass c =
     (if in_renderpass c
      then Inr (log_error ''Starting render pass while already in render pass'' c)
      else case (if \<not> is_recording c then start_recording c else Inr c) of
        Inl e \<Rightarrow> Inl e
      | Inr c1 \<Rightarrow> begin_pass c1)"

definition stop_render_pass :: "'w::len VKContext \<Rightarrow> error + 'w VKContext" where
  "stop_render_pass c =
     (if \<not> in_renderpass c
      then Inr (log_error ''Stopping render pass while not in render pass'' c)
      else Inr ((emit (EndRenderPass (render_cmd c)) c)\<lparr>in_renderpass := False\<rparr>))"

subsection \<open>External collaborators\<close>

text \<open>
  The functions the file calls and does not define, as parameters: the format helpers
  \<^verbatim>\<open>gxm::get_base_format\<close> and \<^verbatim>\<open>color::translate_format\<close>, the two cache lookups
  (the framebuffer lookup also returns the colour attachment, the depth-stencil attachment
  and the framebuffer height it writes through its pointer arguments),
  \<^verbatim>\<open>perform_surface_sync\<close> and the device's \<^verbatim>\<open>waitForFences\<close> (\<open>True\<close> for
  \<^verbatim>\<open>vk::Result::eSuccess\<close>). Those with a state of their own also take the calls made
  so far.
\<close>

record extern =
  get_base_format :: "32 word \<Rightarrow> color_base_format"
  translate_format :: "color_base_format \<Rightarrow> vk_format"
  retrieve_render_pass :: "event list \<Rightarrow> vk_format \<Rightarrow> 32 word \<Rightarrow> handle"
  retrieve_framebuffer_handle ::
    "event list \<Rightarrow> SceGxmColorSurface option \<Rightarrow> SceGxmDepthStencilSurface option \<Rightarrow> handle
       \<Rightarrow> nat \<Rightarrow> nat \<Rightarrow> handle \<times> handle option \<times> handle option \<times> nat"
  perform_surface_sync :: "event list \<Rightarrow> handle option"
  waitForFences :: "event list \<Rightarrow> fence list \<Rightarrow> bool"

subsection \<open>\<^verbatim>\<open>VKContext::stop_recording\<close>\<close>

text \<open>Lines 307-310.\<close>

definition end_query :: "'w::len VKContext \<Rightarrow> error + 'w VKContext" where
  "end_query c =
     (if is_in_query c
      then (case current_visibility_buffer c of
              None \<Rightarrow> Inl NullPointer
            | Some vb \<Rightarrow>
                Inr ((emit (EndQuery (render_cmd c) vb (current_query_idx c)) c)
                       \<lparr>is_in_query := False\<rparr>))
      else Inr c)"

text \<open>Lines 315-320.\<close>

definition copy_query_results :: "'w::len VKContext \<Rightarrow> error + 'w VKContext" where
  "copy_query_results c =
     (if visibility_max_used_idx c \<noteq> - 1
      then (case current_visibility_buffer c of
              None \<Rightarrow> Inl NullPointer
            | Some vb \<Rightarrow>
                Inr ((emit (CopyQueryPoolResults (render_cmd c) vb
                              (visibility_max_used_idx c + 1)) c)
                       \<lparr>visibility_max_used_idx := - 1\<rparr>))
      else Inr c)"

text \<open>Lines 322-324: the handle of the surface sync, null when the sync is not run.\<close>

definition surface_sync :: "extern \<Rightarrow> 'w::len VKContext \<Rightarrow> handle option \<times> 'w VKContext" where
  "surface_sync ext c =
     (if support_memory_mapping c \<and> \<not> disable_surface_sync c
      then (let r = perform_surface_sync ext (trace c) in (r, emit (PerformSurfaceSync r) c))
      else (None, c))"

text \<open>Lines 326-340: end both buffers, take the fence at \<open>fence_idx\<close>, advance the ring,
  submit and note the fence in the frame.\<close>

definition submit_commands :: "'w::len VKContext \<Rightarrow> error + fence \<times> 'w VKContext" where
  "submit_commands c =
     (case render_target c of
        None \<Rightarrow> Inl NullPointer
      | Some p \<Rightarrow>
          if \<not> p < length (render_targets c) then Inl NullPointer
          else
            (let rt = render_targets c ! p; i = current_frame_idx c in
             if \<not> fence_idx rt < length (fences rt) \<or> \<not> i < length (frames c)
             then Inl OutOfBounds
             else
               (let fence = fences rt ! fence_idx rt in
                Inr (fence,
                  upd_rt p (\<lambda>rt. rt\<lparr>fence_idx :=
                      (if fence_idx rt + 1 = length (fences rt) then 0 else fence_idx rt + 1)\<rparr>)
                    (c\<lparr>frames := (frames c)[i := (frames c ! i)
                           \<lparr>rendered_fences := rendered_fences (frames c ! i) @ [fence]\<rparr>],
                       trace := trace c
                         @ [CmdEnd (prerender_cmd c), CmdEnd (render_cmd c),
                            QueueSubmit [prerender_cmd c, render_cmd c] fence]\<rparr>)))))"

text \<open>Lines 342-353.\<close>

definition push_requests ::
  "SceGxmNotification \<Rightarrow> SceGxmNotification \<Rightarrow> fence \<Rightarrow> handle option
     \<Rightarrow> 'w::len VKContext \<Rightarrow> 'w VKContext" where
  "push_requests notif1 notif2 fence surface_info c =
     (if support_memory_mapping c
      then (let c1 = queue_push (NotificationRequest notif1 notif2 fence) c in
            case surface_info of
              None \<Rightarrow> c1
            | Some info \<Rightarrow> queue_push (PostSurfaceSyncRequest info) c1)
      else c)"

text \<open>Lines 355-359.\<close>

definition revert_extent :: "'w::len VKContext \<Rightarrow> error + 'w VKContext" where
  "revert_extent c =
     (case render_target c of
        None \<Rightarrow> Inl NullPointer
      | Some p \<Rightarrow>
          if \<not> p < length (render_targets c) then Inl NullPointer
          else
            Inr (upd_rt p
              (\<lambda>rt. if multisample_mode rt \<noteq> 0
                       \<and> \<not> downscale (color_surface (record_state c))
                    then rt\<lparr>width := width rt div 2, height := height rt div 2\<rparr>
                    else rt) c))"

definition stop_recording ::
  "extern \<Rightarrow> SceGxmNotification \<Rightarrow> SceGxmNotification \<Rightarrow> 'w::len VKContext
     \<Rightarrow> error + 'w VKContext" where
  "stop_recording ext notif1 notif2 c =
     (if \<not> is_recording c
      then Inr (log_error ''Stopping recording while not recording'' c)
      else case end_query c of
        Inl e \<Rightarrow> Inl e
      | Inr c1 \<Rightarrow>
          (case (if in_renderpass c1 then stop_render_pass c1 else Inr c1) of
             Inl e \<Rightarrow> Inl e
           | Inr c2 \<Rightarrow>
               (case copy_query_results c2 of
                  Inl e \<Rightarrow> Inl e
                | Inr c3 \<Rightarrow>
                    (case surface_sync ext c3 of
                       (surface_info, c4) \<Rightarrow>
                         (case submit_commands c4 of
                            Inl e \<Rightarrow> Inl e
                          | Inr (fence, c5) \<Rightarrow>
                              (case revert_extent
                                      (push_requests notif1 notif2 fence surface_info c5) of
                                 Inl e \<Rightarrow> Inl e
                               | Inr c6 \<Rightarrow>
                                   Inr (c6\<lparr>render_cmd := None,
                                          prerender_cmd := None,
                                          is_recording := False\<rparr>)))))))"

subsection \<open>\<^verbatim>\<open>set_context\<close>\<close>

text \<open>Lines 104-123: the format and the flags taken from the colour surface; a surface
  with a null address is no surface, and the defaults are put back. The result is the
  context, the format asked of the render pass cache and the surface pointer.\<close>

definition resolve_color ::
  "extern \<Rightarrow> 'w::len VKContext \<Rightarrow> 'w VKContext \<times> vk_format \<times> bool" where
  "resolve_color ext c =
     (let surf = color_surface (record_state c);
          base = get_base_format ext (colorFormat surf);
          c1 = c\<lparr>record_state := (record_state c)
                 \<lparr>color_base_format := base, is_gamma_corrected := (gamma surf \<noteq> 0)\<rparr>\<rparr>;
          fmt = translate_format ext base;
          fmt1 = (if gamma surf \<noteq> 0 \<and> fmt = eR8G8B8A8Unorm then eR8G8B8A8Srgb else fmt)
      in if data surf = 0
         then (c1\<lparr>record_state := (record_state c1)
                   \<lparr>color_surface := surf\<lparr>downscale := False\<rparr>,
                    is_gamma_corrected := False,
                    is_maskupdate := False,
                    color_base_format := SCE_GXM_COLOR_BASE_FORMAT_U8U8U8U8\<rparr>\<rparr>,
               eR8G8B8A8Unorm, False)
         else (c1, fmt1, True))"

text \<open>Lines 125-129.\<close>

definition double_extent :: "nat \<Rightarrow> 'w::len VKContext \<Rightarrow> 'w VKContext" where
  "double_extent p c =
     upd_rt p
       (\<lambda>rt. if multisample_mode rt \<noteq> 0 \<and> \<not> downscale (color_surface (record_state c))
             then rt\<lparr>width := width rt * 2, height := height rt * 2\<rparr>
             else rt) c"

text \<open>Lines 141-145: the two lookups, after \<open>start_recording\<close>.\<close>

definition retrieve_handles ::
  "extern \<Rightarrow> nat \<Rightarrow> vk_format \<Rightarrow> bool \<Rightarrow> 'w::len VKContext \<Rightarrow> 'w VKContext" where
  "retrieve_handles ext p vk_format has_color c =
     (let ds = depth_stencil_surface (record_state c);
          color_surface_fin = (if has_color then Some (color_surface (record_state c)) else None);
          ds_surface_fin = (if depthData ds = 0 \<and> stencilData ds = 0 then None else Some ds);
          pass = retrieve_render_pass ext (trace c) vk_format (zlsControl ds);
          c1 = (emit (RetrieveRenderPass vk_format (zlsControl ds)) c)
                 \<lparr>current_render_pass := pass\<rparr>;
          rt = render_targets c1 ! p;
          w = unat (width rt);
          h = unat (height rt)
      in case retrieve_framebuffer_handle ext (trace c1) color_surface_fin ds_surface_fin pass w h of
           (fb, color_att, ds_att, fb_height) \<Rightarrow>
             (emit (RetrieveFramebuffer color_surface_fin ds_surface_fin pass w h) c1)
               \<lparr>current_framebuffer := fb,
                current_color_attachment := color_att,
                current_ds_attachment := ds_att,
                current_framebuffer_height := fb_height\<rparr>)"

text \<open>\<open>rt\<close> is the pointer argument; the \<^verbatim>\<open>mem\<close> and \<^verbatim>\<open>features\<close> arguments are only
  passed on or unused.\<close>

definition set_context ::
  "extern \<Rightarrow> nat option \<Rightarrow> 'w::len VKContext \<Rightarrow> error + 'w VKContext" where
  "set_context ext rt c =
     (let c1 = c\<lparr>render_target := (case rt of Some p \<Rightarrow> Some p | None \<Rightarrow> current_render_target c)\<rparr>;
          c2 = c1\<lparr>scene_timestamp := scene_timestamp c1 + 1\<rparr>
      in case resolve_color ext c2 of
        (c3, vk_format, has_color) \<Rightarrow>
          (case render_target c3 of
             None \<Rightarrow> Inl NullPointer
           | Some p \<Rightarrow>
               if \<not> p < length (render_targets c3) then Inl NullPointer
               else
                 (case start_recording (emit (SetRenderTarget (Some p)) (double_extent p c3)) of
                    Inl e \<Rightarrow> Inl e
                  | Inr c4 \<Rightarrow>
                      (let c5 = retrieve_handles ext p vk_format has_color c4;
                           c6 = (if use_mask_bit c5 then emit SyncMask c5 else c5)
                       in start_render_pass c6))))"

subsection \<open>\<^verbatim>\<open>VKContext::wait_thread_function\<close>\<close>

text \<open>
  The state of the wait thread: its local vector \<^verbatim>\<open>fences\<close> (\<open>pending\<close>), the guest
  memory it writes to, the member \<^verbatim>\<open>last_frame_waited\<close>, and its own trace of calls.
\<close>

record wait_thread =
  pending :: "fence list"
  mem :: "32 word \<Rightarrow> 32 word"
  last_frame_waited :: "64 word"
  calls :: "event list"

text \<open>
  The lambda \<^verbatim>\<open>wait_for_fences\<close>, lines 35-46. A wait that does not return
  \<^verbatim>\<open>eSuccess\<close> is logged and then runs into \<^verbatim>\<open>assert(false); return;\<close> (lines
  40-41), which depends on the build, the first argument (\<open>ndebug\<close>). With assertions
  enabled (\<open>ndebug\<close> false) the assertion stops the thread: the result is the error with
  the state reached. With assertions compiled out (\<^verbatim>\<open>NDEBUG\<close> defined, \<open>ndebug\<close>
  true) the \<^verbatim>\<open>return\<close> leaves the lambda only: \<^verbatim>\<open>fences.clear()\<close> is skipped, so
  the batch stays pending, and the handler that called the lambda goes on.
\<close>

definition wait_for_fences ::
  "bool \<Rightarrow> extern \<Rightarrow> wait_thread \<Rightarrow> error \<times> wait_thread + wait_thread" where
  "wait_for_fences ndebug ext s =
     (if pending s \<noteq> []
      then (if waitForFences ext (calls s) (pending s)
            then Inr (s\<lparr>pending := [], calls := calls s @ [WaitForFences (pending s) True]\<rparr>)
            else (let s1 = s\<lparr>calls := calls s
                       @ [WaitForFences (pending s) False,
                          LogError ''Could not wait for fences.'']\<rparr>
                  in if ndebug then Inr s1 else Inl (AssertionFailure, s1)))
      else Inr s)"

text \<open>Lines 64-67, one notification: the store happens when the address is not null.\<close>

definition write_notification :: "SceGxmNotification \<Rightarrow> wait_thread \<Rightarrow> wait_thread" where
  "write_notification n s =
     (if n_address n \<noteq> 0
      then s\<lparr>mem := (mem s)(n_address n := n_value n),
             calls := calls s @ [GuestWrite (n_address n) (n_value n)]\<rparr>
      else s)"

definition call :: "event \<Rightarrow> wait_thread \<Rightarrow> wait_thread" where
  "call e s = s\<lparr>calls := calls s @ [e]\<rparr>"

text \<open>
  The three alternatives of the visitor, lines 55-88. Each goes on with the state in
  which the lambda returned, whether the wait succeeded or, with assertions compiled
  out, failed.
\<close>

fun handle_request ::
  "bool \<Rightarrow> extern \<Rightarrow> request \<Rightarrow> wait_thread \<Rightarrow> error \<times> wait_thread + wait_thread" where
  "handle_request ndebug ext (NotificationRequest n0 n1 fence) s =
     (let s1 = s\<lparr>pending := pending s @ [fence]\<rparr> in
      if n_address n0 \<noteq> 0 \<or> n_address n1 \<noteq> 0
      then (case wait_for_fences ndebug ext s1 of
              Inl e \<Rightarrow> Inl e
            | Inr s2 \<Rightarrow>
                Inr (call NotifyAll (call (MutexUnlock notification_mutex)
                      (write_notification n1 (write_notification n0
                        (call (MutexLock notification_mutex) s2))))))
      else Inr s1)"
| "handle_request ndebug ext (FrameDoneRequest ts) s =
     (case wait_for_fences ndebug ext s of
        Inl e \<Rightarrow> Inl e
      | Inr s1 \<Rightarrow>
          Inr (call NotifyOne (call (MutexUnlock new_frame_mutex)
                ((call (MutexLock new_frame_mutex) s1)\<lparr>last_frame_waited := ts\<rparr>))))"
| "handle_request ndebug ext (PostSurfaceSyncRequest info) s =
     (case wait_for_fences ndebug ext s of
        Inl e \<Rightarrow> Inl e
      | Inr s1 \<Rightarrow> Inr (call (PerformPostSurfaceSync info) s1))"

text \<open>
  The loop of lines 48-90, over the content of the request queue: \<open>r # q\<close> is a
  \<^verbatim>\<open>pop\<close> that returns \<open>r\<close>, and \<open>[]\<close> is the closed and drained queue, at which the
  loop ends.
\<close>

fun wait_thread_loop ::
  "bool \<Rightarrow> extern \<Rightarrow> request list \<Rightarrow> wait_thread \<Rightarrow> error \<times> wait_thread + wait_thread" where
  "wait_thread_loop ndebug ext [] s = Inr s"
| "wait_thread_loop ndebug ext (r # q) s =
     (case handle_request ndebug ext r s of
        Inl e \<Rightarrow> Inl e
      | Inr s' \<Rightarrow> wait_thread_loop ndebug ext q s')"

definition wait_thread_function ::
  "bool \<Rightarrow> extern \<Rightarrow> request list \<Rightarrow> (32 word \<Rightarrow> 32 word) \<Rightarrow> 64 word
     \<Rightarrow> error \<times> wait_thread + wait_thread" where
  "wait_thread_function ndebug ext q m lfw =
     wait_thread_loop ndebug ext q
       \<lparr>pending = [], mem = m, last_frame_waited = lfw, calls = []\<rparr>"

subsection \<open>Recording sessions\<close>

text \<open>One scene as the render thread drives it: \<^verbatim>\<open>start_recording\<close>,
  \<^verbatim>\<open>start_render_pass\<close>, \<^verbatim>\<open>stop_render_pass\<close>, \<^verbatim>\<open>stop_recording\<close>; and a run of
  scenes, one per pair of notifications.\<close>

definition recording_session ::
  "extern \<Rightarrow> SceGxmNotification \<times> SceGxmNotification \<Rightarrow> 'w::len VKContext
     \<Rightarrow> error + 'w VKContext" where
  "recording_session ext n c =
     (case start_recording c of
        Inl e \<Rightarrow> Inl e
      | Inr c1 \<Rightarrow>
          (case start_render_pass c1 of
             Inl e \<Rightarrow> Inl e
           | Inr c2 \<Rightarrow>
               (case stop_render_pass c2 of
                  Inl e \<Rightarrow> Inl e
                | Inr c3 \<Rightarrow> stop_recording ext (fst n) (snd n) c3)))"

fun run_sessions ::
  "extern \<Rightarrow> (SceGxmNotification \<times> SceGxmNotification) list \<Rightarrow> 'w::len VKContext
     \<Rightarrow> error + 'w VKContext" where
  "run_sessions ext [] c = Inr c"
| "run_sessions ext (n # ns) c =
     (case recording_session ext n c of
        Inl e \<Rightarrow> Inl e
      | Inr c' \<Rightarrow> run_sessions ext ns c')"

subsection \<open>Projections of a trace\<close>

fun submission :: "event \<Rightarrow> (cmd_buffer option list \<times> fence) option" where
  "submission (QueueSubmit cmds f) = Some (cmds, f)"
| "submission _ = None"

fun render_pass_request :: "event \<Rightarrow> (vk_format \<times> 32 word) option" where
  "render_pass_request (RetrieveRenderPass fmt zls) = Some (fmt, zls)"
| "render_pass_request _ = None"

fun framebuffer_request :: "event \<Rightarrow> SceGxmColorSurface option option" where
  "framebuffer_request (RetrieveFramebuffer col ds pass w h) = Some col"
| "framebuffer_request _ = None"

fun sync_result :: "event \<Rightarrow> handle option" where
  "sync_result (PerformSurfaceSync r) = r"
| "sync_result _ = None"

text \<open>The events a call appended: the trace after it, without the trace before it.\<close>

definition new_events :: "'w::len VKContext \<Rightarrow> 'w VKContext \<Rightarrow> event list" where
  "new_events c c' = drop (length (trace c)) (trace c')"

text \<open>A list of events with no queue submission, no surface sync that produced a handle
  and no cache lookup.\<close>

definition quiet :: "event list \<Rightarrow> bool" where
  "quiet es \<longleftrightarrow>
     List.map_filter submission es = [] \<and> List.map_filter sync_result es = []
     \<and> List.map_filter render_pass_request es = []
     \<and> List.map_filter framebuffer_request es = []"

subsection \<open>Projections of the wait thread's calls\<close>

text \<open>The fences of the waits that returned success.\<close>

fun wait_of :: "event \<Rightarrow> fence list" where
  "wait_of (WaitForFences fs ok) = (if ok then fs else [])"
| "wait_of _ = []"

definition waited :: "event list \<Rightarrow> fence list" where
  "waited es = concat (map wait_of es)"

text \<open>The fence a request brings, and the fences of a list of requests.\<close>

fun request_fence :: "request \<Rightarrow> fence list" where
  "request_fence (NotificationRequest n0 n1 fence) = [fence]"
| "request_fence _ = []"

definition request_fences :: "request list \<Rightarrow> fence list" where
  "request_fences q = concat (map request_fence q)"

text \<open>The calls by which a request acts on the outside: the stores to guest memory and
  the wake-up of the notification waiters, the wake-up of the frame waiter, the end of
  the surface sync.\<close>

fun is_effect :: "event \<Rightarrow> bool" where
  "is_effect (GuestWrite a v) = True"
| "is_effect NotifyAll = True"
| "is_effect NotifyOne = True"
| "is_effect (PerformPostSurfaceSync info) = True"
| "is_effect _ = False"

definition guest_writes :: "SceGxmNotification \<Rightarrow> SceGxmNotification \<Rightarrow> event list" where
  "guest_writes n0 n1 =
     (if n_address n0 \<noteq> 0 then [GuestWrite (n_address n0) (n_value n0)] else [])
     @ (if n_address n1 \<noteq> 0 then [GuestWrite (n_address n1) (n_value n1)] else [])"

fun effects :: "request \<Rightarrow> event list" where
  "effects (NotificationRequest n0 n1 fence) =
     (if n_address n0 \<noteq> 0 \<or> n_address n1 \<noteq> 0 then guest_writes n0 n1 @ [NotifyAll] else [])"
| "effects (FrameDoneRequest ts) = [NotifyOne]"
| "effects (PostSurfaceSyncRequest info) = [PerformPostSurfaceSync info]"

text \<open>The calls a step of the wait thread appended.\<close>

definition new_calls :: "wait_thread \<Rightarrow> wait_thread \<Rightarrow> event list" where
  "new_calls s s' = drop (length (calls s)) (calls s')"

subsection \<open>Example states\<close>

definition example_target :: "16 VKRenderTarget" where
  "example_target =
     \<lparr>width = 960, height = 544, multisample_mode = 0, mask_view = 7,
      cmd_buffers = [[10, 11], [12, 13]], pre_cmd_buffers = [[20, 21], [22, 23]],
      fences = [30, 31], fence_idx = 0, cmd_buffer_idx = 0, last_used_frame = 4\<rparr>"

definition example_record :: GxmRecordState where
  "example_record =
     \<lparr>color_surface = \<lparr>downscale = False, gamma = 0, data = 0x81000000, colorFormat = 0\<rparr>,
      depth_stencil_surface =
        \<lparr>depthData = 0, stencilData = 0, zlsControl = 0, backgroundDepth = 1,
         control_content = 0\<rparr>,
      color_base_format = SCE_GXM_COLOR_BASE_FORMAT_U8U8U8U8,
      is_gamma_corrected = False, is_maskupdate = False, two_sided = False\<rparr>"

definition example_context :: "16 VKContext" where
  "example_context =
     \<lparr>render_targets = [example_target], render_target = Some 0,
      current_render_target = Some 0, is_recording = False, in_renderpass = False,
      is_in_query = False, current_visibility_buffer = None, current_query_idx = 0,
      visibility_max_used_idx = - 1, frame_timestamp = 5, scene_timestamp = 0,
      current_frame_idx = 0,
      frames = [\<lparr>render_pool = 1, prerender_pool = 2, descriptor_pool = 3,
                  rendered_fences = []\<rparr>,
                \<lparr>render_pool = 4, prerender_pool = 5, descriptor_pool = 6,
                  rendered_fences = []\<rparr>],
      render_cmd = None, prerender_cmd = None, record_state = example_record,
      current_render_pass = 0, current_framebuffer = 0, current_color_attachment = Some 9,
      current_ds_attachment = None, current_framebuffer_height = 0, rendertarget_set = 0,
      attachments_layout = 8, last_vert_texture_count = 0, last_frag_texture_count = 0,
      vertex_textures = replicate 16 None, fragment_textures = replicate 16 None,
      refresh_pipeline = False, current_pipeline = None, request_queue = [],
      support_memory_mapping = True, use_mask_bit = False, disable_surface_sync = False,
      has_happened = False, next_handle = 100, trace = []\<rparr>"

text \<open>The example context in the middle of a scene.\<close>

definition example_recording :: "16 VKContext" where
  "example_recording =
     example_context\<lparr>is_recording := True, in_renderpass := True,
       render_cmd := Some 10, prerender_cmd := Some 20\<rparr>"

text \<open>The example context with a colour surface that has no backing memory, while its
  flags and those of the record state are set.\<close>

definition example_null_surface :: "16 VKContext" where
  "example_null_surface =
     example_context\<lparr>record_state := example_record
       \<lparr>color_surface := \<lparr>downscale = True, gamma = 1, data = 0, colorFormat = 7\<rparr>,
        is_maskupdate := True\<rparr>\<rparr>"

text \<open>The example context with a multisampled target.\<close>

definition example_msaa :: "16 VKContext" where
  "example_msaa =
     example_context\<lparr>render_targets := [example_target\<lparr>multisample_mode := 1\<rparr>]\<rparr>"

text \<open>
  The same context at any width \<open>'w\<close> of the extent fields, with a multisampled target
  whose width is the top bit of the field: \<open>2 ^ 15\<close> in a 16-bit field, \<open>2 ^ 31\<close> in a
  32-bit one.
\<close>

definition overflow_target :: "'w::len VKRenderTarget" where
  "overflow_target =
     \<lparr>width = 2 ^ (LENGTH('w) - 1), height = 544, multisample_mode = 1, mask_view = 7,
      cmd_buffers = [[10, 11], [12, 13]], pre_cmd_buffers = [[20, 21], [22, 23]],
      fences = [30, 31], fence_idx = 0, cmd_buffer_idx = 0, last_used_frame = 4\<rparr>"

definition overflow_context :: "'w::len VKContext" where
  "overflow_context =
     \<lparr>render_targets = [overflow_target], render_target = Some 0,
      current_render_target = Some 0, is_recording = False, in_renderpass = False,
      is_in_query = False, current_visibility_buffer = None, current_query_idx = 0,
      visibility_max_used_idx = - 1, frame_timestamp = 5, scene_timestamp = 0,
      current_frame_idx = 0,
      frames = [\<lparr>render_pool = 1, prerender_pool = 2, descriptor_pool = 3,
                  rendered_fences = []\<rparr>,
                \<lparr>render_pool = 4, prerender_pool = 5, descriptor_pool = 6,
                  rendered_fences = []\<rparr>],
      render_cmd = None, prerender_cmd = None, record_state = example_record,
      current_render_pass = 0, current_framebuffer = 0, current_color_attachment = Some 9,
      current_ds_attachment = None, current_framebuffer_height = 0, rendertarget_set = 0,
      attachments_layout = 8, last_vert_texture_count = 0, last_frag_texture_count = 0,
      vertex_textures = replicate 16 None, fragment_textures = replicate 16 None,
      refresh_pipeline = False, current_pipeline = None, request_queue = [],
      support_memory_mapping = True, use_mask_bit = False, disable_surface_sync = False,
      has_happened = False, next_handle = 100, trace = []\<rparr>"

text \<open>A fresh wait thread over a zeroed guest memory, and a device whose every wait
  fails.\<close>

definition example_thread :: wait_thread where
  "example_thread = \<lparr>pending = [], mem = (\<lambda>_. 0), last_frame_waited = 0, calls = []\<rparr>"

definition example_extern :: extern where
  "example_extern =
     \<lparr>get_base_format = (\<lambda>_. OtherBaseFormat 1),
      translate_format = (\<lambda>_. OtherFormat 1),
      retrieve_render_pass = (\<lambda>_ _ _. 40),
      retrieve_framebuffer_handle = (\<lambda>_ _ _ _ _ _. (41, Some 42, None, 544)),
      perform_surface_sync = (\<lambda>_. Some 50),
      waitForFences = (\<lambda>_ _. True)\<rparr>"

definition failing_extern :: extern where
  "failing_extern = example_extern\<lparr>waitForFences := (\<lambda>_ _. False)\<rparr>"

definition example_notif1 :: SceGxmNotification where
  "example_notif1 = \<lparr>n_address = 0x1000, n_value = 1\<rparr>"

definition example_notif2 :: SceGxmNotification where
  "example_notif2 = \<lparr>n_address = 0, n_value = 2\<rparr>"

section \<open>Effects of the blocks\<close>

lemma quiet_Nil: "quiet []"
  by (simp add: quiet_def map_filter_def)

lemma quiet_append: "quiet (xs @ ys) \<longleftrightarrow> quiet xs \<and> quiet ys"
  by (auto simp: quiet_def map_filter_def)

lemma length_insert_at: "length (insert_at i x xs) = Suc (length xs)"
  by (simp add: insert_at_def)

lemma nth_insert_at: "i \<le> length xs \<Longrightarrow> insert_at i x xs ! i = x"
  by (simp add: insert_at_def nth_append)

lemma set_insert_at: "set (insert_at i x xs) = insert x (set xs)"
proof -
  have "set (take i xs) \<union> set (drop i xs) = set xs"
    by (metis append_take_drop_id set_append)
  then show ?thesis by (auto simp: insert_at_def)
qed

lemma new_events_append: "trace c' = trace c @ es \<Longrightarrow> new_events c c' = es"
  by (simp add: new_events_def)

subsection \<open>The blocks of \<open>stop_recording\<close>\<close>

lemma end_query_form:
  assumes "end_query c = Inr c1"
  shows "c1 = c\<lparr>is_in_query := False, trace := trace c1\<rparr>"
    and "\<exists>es. trace c1 = trace c @ es \<and> quiet es"
  using assms
  by (auto simp: end_query_def emit_def quiet_def map_filter_def
      split: option.splits if_splits)

lemma end_pass_form:
  assumes "(if in_renderpass c then stop_render_pass c else Inr c) = Inr c1"
  shows "c1 = c\<lparr>in_renderpass := False, trace := trace c1\<rparr>"
    and "\<exists>es. trace c1 = trace c @ es \<and> quiet es"
  using assms
  by (auto simp: stop_render_pass_def emit_def quiet_def map_filter_def
      split: if_splits)

lemma copy_query_results_form:
  assumes "copy_query_results c = Inr c1"
  shows "c1 = c\<lparr>visibility_max_used_idx := - 1, trace := trace c1\<rparr>"
    and "\<exists>es. trace c1 = trace c @ es \<and> quiet es"
  using assms
  by (auto simp: copy_query_results_def emit_def quiet_def map_filter_def
      split: option.splits if_splits)

lemma surface_sync_form:
  assumes "surface_sync ext c = (si, c1)"
  shows "c1 = c\<lparr>trace := trace c1\<rparr>"
    and "\<exists>es. trace c1 = trace c @ es \<and> List.map_filter submission es = []
           \<and> List.map_filter sync_result es = (case si of None \<Rightarrow> [] | Some h \<Rightarrow> [h])"
    and "\<not> (support_memory_mapping c \<and> \<not> disable_surface_sync c) \<Longrightarrow> si = None"
  using assms
  by (auto simp: surface_sync_def emit_def map_filter_def Let_def split: option.splits if_splits)

lemma end_query_ex:
  assumes "end_query c = Inr c1"
  obtains es where "c1 = c\<lparr>is_in_query := False, trace := trace c @ es\<rparr>" "quiet es"
proof -
  from end_query_form [OF assms] obtain es where
    a: "c1 = c\<lparr>is_in_query := False, trace := trace c1\<rparr>" and
    b: "trace c1 = trace c @ es" and n: "quiet es"
    by blast
  from a b have "c1 = c\<lparr>is_in_query := False, trace := trace c @ es\<rparr>" by metis
  with n show ?thesis using that by blast
qed

lemma end_pass_ex:
  assumes "(if in_renderpass c then stop_render_pass c else Inr c) = Inr c1"
  obtains es where "c1 = c\<lparr>in_renderpass := False, trace := trace c @ es\<rparr>" "quiet es"
proof -
  from end_pass_form [OF assms] obtain es where
    a: "c1 = c\<lparr>in_renderpass := False, trace := trace c1\<rparr>" and
    b: "trace c1 = trace c @ es" and n: "quiet es"
    by blast
  from a b have "c1 = c\<lparr>in_renderpass := False, trace := trace c @ es\<rparr>" by metis
  with n show ?thesis using that by blast
qed

lemma copy_query_results_ex:
  assumes "copy_query_results c = Inr c1"
  obtains es where "c1 = c\<lparr>visibility_max_used_idx := - 1, trace := trace c @ es\<rparr>"
    "quiet es"
proof -
  from copy_query_results_form [OF assms] obtain es where
    a: "c1 = c\<lparr>visibility_max_used_idx := - 1, trace := trace c1\<rparr>" and
    b: "trace c1 = trace c @ es" and n: "quiet es"
    by blast
  from a b have "c1 = c\<lparr>visibility_max_used_idx := - 1, trace := trace c @ es\<rparr>" by metis
  with n show ?thesis using that by blast
qed

lemma surface_sync_ex:
  assumes "surface_sync ext c = (si, c1)"
  obtains es where "c1 = c\<lparr>trace := trace c @ es\<rparr>"
    "List.map_filter submission es = []"
    "List.map_filter sync_result es = (case si of None \<Rightarrow> [] | Some h \<Rightarrow> [h])"
proof -
  from surface_sync_form(1,2) [OF assms] obtain es where
    a: "c1 = c\<lparr>trace := trace c1\<rparr>" and
    b: "trace c1 = trace c @ es" and
    n: "List.map_filter submission es = []"
       "List.map_filter sync_result es = (case si of None \<Rightarrow> [] | Some h \<Rightarrow> [h])"
    by blast
  from a b have "c1 = c\<lparr>trace := trace c @ es\<rparr>" by metis
  with n show ?thesis using that by blast
qed

lemma submit_commands_Inr:
  assumes "submit_commands c = Inr (fence, c')"
  obtains p where
    "render_target c = Some p"
    "p < length (render_targets c)"
    "fence_idx (render_targets c ! p) < length (fences (render_targets c ! p))"
    "current_frame_idx c < length (frames c)"
    "fence = fences (render_targets c ! p) ! fence_idx (render_targets c ! p)"
    "c' = upd_rt p (\<lambda>rt. rt\<lparr>fence_idx :=
             (if fence_idx rt + 1 = length (fences rt) then 0 else fence_idx rt + 1)\<rparr>)
           (c\<lparr>frames := (frames c)[current_frame_idx c := (frames c ! current_frame_idx c)
                  \<lparr>rendered_fences := rendered_fences (frames c ! current_frame_idx c) @ [fence]\<rparr>],
               trace := trace c
                 @ [CmdEnd (prerender_cmd c), CmdEnd (render_cmd c),
                    QueueSubmit [prerender_cmd c, render_cmd c] fence]\<rparr>)"
  using assms unfolding submit_commands_def Let_def
  by (auto split: option.splits if_splits)

lemma stop_recording_steps:
  assumes "stop_recording ext n1 n2 c = Inr c'" "is_recording c"
  obtains c1 c2 c3 c4 c5 c6 si fence where
    "end_query c = Inr c1"
    "(if in_renderpass c1 then stop_render_pass c1 else Inr c1) = Inr c2"
    "copy_query_results c2 = Inr c3"
    "surface_sync ext c3 = (si, c4)"
    "submit_commands c4 = Inr (fence, c5)"
    "revert_extent (push_requests n1 n2 fence si c5) = Inr c6"
    "c' = c6\<lparr>render_cmd := None, prerender_cmd := None, is_recording := False\<rparr>"
  using assms unfolding stop_recording_def
  by (auto split: sum.splits prod.splits if_splits)

text \<open>A successful \<open>stop_recording\<close>, field by field. \<open>si\<close> is the handle of the surface
  sync and \<open>es\<close> the events before the two buffers are ended.\<close>

lemma stop_recording_cases:
  assumes "stop_recording ext n1 n2 c = Inr c'" "is_recording c"
  obtains p si es where
    "render_target c = Some p"
    "p < length (render_targets c)"
    "fence_idx (render_targets c ! p) < length (fences (render_targets c ! p))"
    "current_frame_idx c < length (frames c)"
    "si = None \<or> (support_memory_mapping c \<and> \<not> disable_surface_sync c)"
    "List.map_filter submission es = []"
    "List.map_filter sync_result es = (case si of None \<Rightarrow> [] | Some h \<Rightarrow> [h])"
    "render_targets c' = (render_targets c)[p :=
         (let rt = render_targets c ! p;
              rt1 = rt\<lparr>fence_idx :=
                (if fence_idx rt + 1 = length (fences rt) then 0 else fence_idx rt + 1)\<rparr>
          in if multisample_mode rt \<noteq> 0 \<and> \<not> downscale (color_surface (record_state c))
             then rt1\<lparr>width := width rt div 2, height := height rt div 2\<rparr>
             else rt1)]"
    "frames c' = (frames c)[current_frame_idx c := (frames c ! current_frame_idx c)
         \<lparr>rendered_fences := rendered_fences (frames c ! current_frame_idx c)
            @ [fences (render_targets c ! p) ! fence_idx (render_targets c ! p)]\<rparr>]"
    "request_queue c' = request_queue c @
         (if support_memory_mapping c
          then NotificationRequest n1 n2
                 (fences (render_targets c ! p) ! fence_idx (render_targets c ! p))
               # (case si of None \<Rightarrow> [] | Some h \<Rightarrow> [PostSurfaceSyncRequest h])
          else [])"
    "trace c' = trace c @ es @
         [CmdEnd (prerender_cmd c), CmdEnd (render_cmd c),
          QueueSubmit [prerender_cmd c, render_cmd c]
            (fences (render_targets c ! p) ! fence_idx (render_targets c ! p))]"
    "\<not> is_recording c' \<and> \<not> in_renderpass c' \<and> render_cmd c' = None \<and> prerender_cmd c' = None"
    "render_target c' = render_target c \<and> record_state c' = record_state c
     \<and> frame_timestamp c' = frame_timestamp c \<and> current_frame_idx c' = current_frame_idx c
     \<and> support_memory_mapping c' = support_memory_mapping c
     \<and> current_color_attachment c' = current_color_attachment c
     \<and> next_handle c' = next_handle c"
proof -
  from assms obtain c1 c2 c3 c4 c5 c6 si fence where
    s1: "end_query c = Inr c1" and
    s2: "(if in_renderpass c1 then stop_render_pass c1 else Inr c1) = Inr c2" and
    s3: "copy_query_results c2 = Inr c3" and
    s4: "surface_sync ext c3 = (si, c4)" and
    s5: "submit_commands c4 = Inr (fence, c5)" and
    s6a: "revert_extent (push_requests n1 n2 fence si c5) = Inr c6" and
    s6b: "c' = c6\<lparr>render_cmd := None, prerender_cmd := None, is_recording := False\<rparr>"
    by (rule stop_recording_steps)
  from s1 obtain es1 where
    c1: "c1 = c\<lparr>is_in_query := False, trace := trace c @ es1\<rparr>" and e1: "quiet es1"
    by (rule end_query_ex)
  from s2 obtain es2 where
    c2: "c2 = c1\<lparr>in_renderpass := False, trace := trace c1 @ es2\<rparr>" and e2: "quiet es2"
    by (rule end_pass_ex)
  from s3 obtain es3 where
    c3: "c3 = c2\<lparr>visibility_max_used_idx := - 1, trace := trace c2 @ es3\<rparr>"
    and e3: "quiet es3"
    by (rule copy_query_results_ex)
  from s4 obtain es4 where
    c4: "c4 = c3\<lparr>trace := trace c3 @ es4\<rparr>" and
    e4: "List.map_filter submission es4 = []"
        "List.map_filter sync_result es4 = (case si of None \<Rightarrow> [] | Some h \<Rightarrow> [h])"
    by (rule surface_sync_ex)
  have flags: "support_memory_mapping c3 = support_memory_mapping c"
    "disable_surface_sync c3 = disable_surface_sync c"
    by (simp_all add: c1 c2 c3)
  have si: "si = None \<or> (support_memory_mapping c \<and> \<not> disable_surface_sync c)"
    using surface_sync_form(3) [OF s4] flags by blast
  define es where "es = es1 @ es2 @ es3 @ es4"
  have es: "List.map_filter submission es = []"
    "List.map_filter sync_result es = (case si of None \<Rightarrow> [] | Some h \<Rightarrow> [h])"
    using e1 e2 e3 e4 by (simp_all add: es_def quiet_def map_filter_def)
  from s5 obtain p where
    p4: "render_target c4 = Some p" "p < length (render_targets c4)"
      "fence_idx (render_targets c4 ! p) < length (fences (render_targets c4 ! p))"
      "current_frame_idx c4 < length (frames c4)" and
    f: "fence = fences (render_targets c4 ! p) ! fence_idx (render_targets c4 ! p)" and
    c5: "c5 = upd_rt p (\<lambda>rt. rt\<lparr>fence_idx :=
             (if fence_idx rt + 1 = length (fences rt) then 0 else fence_idx rt + 1)\<rparr>)
           (c4\<lparr>frames := (frames c4)[current_frame_idx c4 := (frames c4 ! current_frame_idx c4)
                  \<lparr>rendered_fences := rendered_fences (frames c4 ! current_frame_idx c4) @ [fence]\<rparr>],
               trace := trace c4
                 @ [CmdEnd (prerender_cmd c4), CmdEnd (render_cmd c4),
                    QueueSubmit [prerender_cmd c4, render_cmd c4] fence]\<rparr>)"
    by (rule submit_commands_Inr)
  have sel: "render_target c4 = render_target c" "render_targets c4 = render_targets c"
    "current_frame_idx c4 = current_frame_idx c" "frames c4 = frames c"
    "prerender_cmd c4 = prerender_cmd c" "render_cmd c4 = render_cmd c"
    "record_state c4 = record_state c" "request_queue c4 = request_queue c"
    "support_memory_mapping c4 = support_memory_mapping c" "trace c4 = trace c @ es"
    "frame_timestamp c4 = frame_timestamp c"
    "current_color_attachment c4 = current_color_attachment c"
    "next_handle c4 = next_handle c" "in_renderpass c4 = False"
    by (simp_all add: c1 c2 c3 c4 es_def)
  have p: "render_target c = Some p" "p < length (render_targets c)"
      "fence_idx (render_targets c ! p) < length (fences (render_targets c ! p))"
      "current_frame_idx c < length (frames c)"
    using p4 by (simp_all add: sel)
  have rt5: "render_target (push_requests n1 n2 fence si c5) = Some p"
    "p < length (render_targets (push_requests n1 n2 fence si c5))"
    using p by (cases si; simp add: c5 push_requests_def queue_push_def upd_rt_def sel)+
  have c6: "c6 = upd_rt p
      (\<lambda>rt. if multisample_mode rt \<noteq> 0
               \<and> \<not> downscale (color_surface
                      (record_state (push_requests n1 n2 fence si c5)))
            then rt\<lparr>width := width rt div 2, height := height rt div 2\<rparr>
            else rt) (push_requests n1 n2 fence si c5)"
    using s6a by (simp add: revert_extent_def rt5)
  note defs = s6b c6 c5 f push_requests_def queue_push_def upd_rt_def Let_def
  have r1: "render_targets c' = (render_targets c)[p :=
         (let rt = render_targets c ! p;
              rt1 = rt\<lparr>fence_idx :=
                (if fence_idx rt + 1 = length (fences rt) then 0 else fence_idx rt + 1)\<rparr>
          in if multisample_mode rt \<noteq> 0 \<and> \<not> downscale (color_surface (record_state c))
             then rt1\<lparr>width := width rt div 2, height := height rt div 2\<rparr>
             else rt1)]"
    using p by (cases si) (simp_all add: defs sel)
  have r2: "frames c' = (frames c)[current_frame_idx c := (frames c ! current_frame_idx c)
         \<lparr>rendered_fences := rendered_fences (frames c ! current_frame_idx c)
            @ [fences (render_targets c ! p) ! fence_idx (render_targets c ! p)]\<rparr>]"
    by (cases si) (simp_all add: defs sel)
  have r3: "request_queue c' = request_queue c @
         (if support_memory_mapping c
          then NotificationRequest n1 n2
                 (fences (render_targets c ! p) ! fence_idx (render_targets c ! p))
               # (case si of None \<Rightarrow> [] | Some h \<Rightarrow> [PostSurfaceSyncRequest h])
          else [])"
    by (cases si) (simp_all add: defs sel)
  have r4: "trace c' = trace c @ es @
         [CmdEnd (prerender_cmd c), CmdEnd (render_cmd c),
          QueueSubmit [prerender_cmd c, render_cmd c]
            (fences (render_targets c ! p) ! fence_idx (render_targets c ! p))]"
    by (cases si) (simp_all add: defs sel)
  have r5: "\<not> is_recording c' \<and> \<not> in_renderpass c' \<and> render_cmd c' = None
      \<and> prerender_cmd c' = None"
    by (cases si) (simp_all add: defs sel)
  have r6: "render_target c' = render_target c \<and> record_state c' = record_state c
     \<and> frame_timestamp c' = frame_timestamp c \<and> current_frame_idx c' = current_frame_idx c
     \<and> support_memory_mapping c' = support_memory_mapping c
     \<and> current_color_attachment c' = current_color_attachment c
     \<and> next_handle c' = next_handle c"
    by (cases si) (simp_all add: defs sel)
  from p si es r1 r2 r3 r4 r5 r6 show ?thesis by (rule that)
qed

text \<open>From the end of \<open>start_recording\<close> to the end of the session, the cursor and the
  pools of the bound render target stay as they are.\<close>

lemma stop_recording_pools:
  assumes "stop_recording ext a b c = Inr c'" "is_recording c" "render_target c = Some p"
  shows "cmd_buffer_idx (render_targets c' ! p) = cmd_buffer_idx (render_targets c ! p)"
    and "last_used_frame (render_targets c' ! p) = last_used_frame (render_targets c ! p)"
    and "cmd_buffers (render_targets c' ! p) = cmd_buffers (render_targets c ! p)"
    and "pre_cmd_buffers (render_targets c' ! p) = pre_cmd_buffers (render_targets c ! p)"
    and "fences (render_targets c' ! p) = fences (render_targets c ! p)"
    and "fence_idx (render_targets c' ! p) =
           (if fence_idx (render_targets c ! p) + 1 = length (fences (render_targets c ! p))
            then 0 else fence_idx (render_targets c ! p) + 1)"
    and "fence_idx (render_targets c ! p) < length (fences (render_targets c ! p))"
proof -
  from assms(1,2) obtain p' si es where
    p': "render_target c = Some p'" "p' < length (render_targets c)"
      "fence_idx (render_targets c ! p') < length (fences (render_targets c ! p'))" and
    r: "render_targets c' = (render_targets c)[p' :=
         (let rt = render_targets c ! p';
              rt1 = rt\<lparr>fence_idx :=
                (if fence_idx rt + 1 = length (fences rt) then 0 else fence_idx rt + 1)\<rparr>
          in if multisample_mode rt \<noteq> 0 \<and> \<not> downscale (color_surface (record_state c))
             then rt1\<lparr>width := width rt div 2, height := height rt div 2\<rparr>
             else rt1)]"
    by (rule stop_recording_cases)
  from p' assms(3) have [simp]: "p' = p" by simp
  show "cmd_buffer_idx (render_targets c' ! p) = cmd_buffer_idx (render_targets c ! p)"
    and "last_used_frame (render_targets c' ! p) = last_used_frame (render_targets c ! p)"
    and "cmd_buffers (render_targets c' ! p) = cmd_buffers (render_targets c ! p)"
    and "pre_cmd_buffers (render_targets c' ! p) = pre_cmd_buffers (render_targets c ! p)"
    and "fences (render_targets c' ! p) = fences (render_targets c ! p)"
    and "fence_idx (render_targets c' ! p) =
           (if fence_idx (render_targets c ! p) + 1 = length (fences (render_targets c ! p))
            then 0 else fence_idx (render_targets c ! p) + 1)"
    and "fence_idx (render_targets c ! p) < length (fences (render_targets c ! p))"
    using p' by (simp_all add: r Let_def)
qed

lemma stop_recording_others:
  assumes "stop_recording ext a b c = Inr c'" "render_target c \<noteq> Some q"
  shows "render_targets c' ! q = render_targets c ! q"
proof (cases "is_recording c")
  case False
  with assms show ?thesis by (auto simp: stop_recording_def log_error_def emit_def)
next
  case True
  from assms(1) True obtain p' si es where
    p': "render_target c = Some p'" and
    r: "render_targets c' = (render_targets c)[p' :=
         (let rt = render_targets c ! p';
              rt1 = rt\<lparr>fence_idx :=
                (if fence_idx rt + 1 = length (fences rt) then 0 else fence_idx rt + 1)\<rparr>
          in if multisample_mode rt \<noteq> 0 \<and> \<not> downscale (color_surface (record_state c))
             then rt1\<lparr>width := width rt div 2, height := height rt div 2\<rparr>
             else rt1)]"
    by (rule stop_recording_cases)
  with assms(2) show ?thesis by (simp add: r)
qed

lemma stop_recording_frame:
  assumes "stop_recording ext a b c = Inr c'" "is_recording c"
  shows "\<not> is_recording c'" and "render_target c' = render_target c"
    and "frame_timestamp c' = frame_timestamp c"
    and "current_frame_idx c' = current_frame_idx c"
    and "length (render_targets c') = length (render_targets c)"
proof -
  from assms obtain p' si es where
    r: "render_targets c' = (render_targets c)[p' :=
         (let rt = render_targets c ! p';
              rt1 = rt\<lparr>fence_idx :=
                (if fence_idx rt + 1 = length (fences rt) then 0 else fence_idx rt + 1)\<rparr>
          in if multisample_mode rt \<noteq> 0 \<and> \<not> downscale (color_surface (record_state c))
             then rt1\<lparr>width := width rt div 2, height := height rt div 2\<rparr>
             else rt1)]" and
    f: "\<not> is_recording c' \<and> \<not> in_renderpass c' \<and> render_cmd c' = None \<and> prerender_cmd c' = None"
      "render_target c' = render_target c \<and> record_state c' = record_state c
       \<and> frame_timestamp c' = frame_timestamp c \<and> current_frame_idx c' = current_frame_idx c
       \<and> support_memory_mapping c' = support_memory_mapping c
       \<and> current_color_attachment c' = current_color_attachment c
       \<and> next_handle c' = next_handle c"
    by (rule stop_recording_cases)
  show "\<not> is_recording c'" and "render_target c' = render_target c"
    and "frame_timestamp c' = frame_timestamp c"
    and "current_frame_idx c' = current_frame_idx c"
    and "length (render_targets c') = length (render_targets c)"
    using f by (simp_all add: r)
qed

lemma stop_recording_new_submission:
  assumes "is_recording c" and "stop_recording ext n1 n2 c = Inr c'"
    and "render_target c = Some p"
  shows "List.map_filter submission (new_events c c')
           = [([prerender_cmd c, render_cmd c],
               fences (render_targets c ! p) ! fence_idx (render_targets c ! p))]"
proof -
  from assms(2,1) obtain p' si es where
    p: "render_target c = Some p'" and
    es: "List.map_filter submission es = []" and
    t: "trace c' = trace c @ es @
         [CmdEnd (prerender_cmd c), CmdEnd (render_cmd c),
          QueueSubmit [prerender_cmd c, render_cmd c]
            (fences (render_targets c ! p') ! fence_idx (render_targets c ! p'))]"
    by (rule stop_recording_cases)
  from p assms(3) have [simp]: "p' = p" by simp
  have "new_events c c' = es @
         [CmdEnd (prerender_cmd c), CmdEnd (render_cmd c),
          QueueSubmit [prerender_cmd c, render_cmd c]
            (fences (render_targets c ! p) ! fence_idx (render_targets c ! p))]"
    using t by (simp add: new_events_def)
  with es show ?thesis by (simp add: map_filter_def)
qed

subsection \<open>\<open>start_recording\<close>\<close>

lemmas start_recording_defs =
  start_recording_def grow_pools_def begin_buffers_def upd_rt_def log_error_def emit_def

lemma start_recording_trace:
  assumes "start_recording c = Inr c'"
  shows "\<exists>es. trace c' = trace c @ es \<and> quiet es"
  using assms
  by (auto simp: start_recording_defs quiet_def map_filter_def Let_def
      split: if_splits sum.splits option.splits)

lemma start_recording_frame:
  assumes "start_recording c = Inr c'"
  shows "length (render_targets c') = length (render_targets c)"
    and "render_target c' = render_target c"
    and "frame_timestamp c' = frame_timestamp c"
    and "current_frame_idx c' = current_frame_idx c"
    and "request_queue c' = request_queue c"
    and "record_state c' = record_state c"
    and "frames c' = frames c"
    and "in_renderpass c' = in_renderpass c"
    and "support_memory_mapping c' = support_memory_mapping c"
    and "use_mask_bit c' = use_mask_bit c"
    and "current_color_attachment c' = current_color_attachment c"
  using assms
  by (auto simp: start_recording_defs Let_def split: if_splits sum.splits option.splits)

lemma start_recording_extent:
  assumes "start_recording c = Inr c'"
  shows "width (render_targets c' ! q) = width (render_targets c ! q)"
    and "height (render_targets c' ! q) = height (render_targets c ! q)"
    and "multisample_mode (render_targets c' ! q) = multisample_mode (render_targets c ! q)"
    and "fence_idx (render_targets c' ! q) = fence_idx (render_targets c ! q)"
  using assms
  by (auto simp: start_recording_defs reset_idx_def Let_def nth_list_update
      split: if_splits sum.splits option.splits)

lemma start_recording_started:
  assumes "start_recording c = Inr c'" "\<not> is_recording c" "render_target c = Some p"
  shows "p < length (render_targets c)"
    and "is_recording c'"
    and "cmd_buffer_idx (render_targets c' ! p)
           = cmd_buffer_idx (reset_idx (frame_timestamp c) (render_targets c ! p)) + 1"
    and "last_used_frame (render_targets c' ! p) = frame_timestamp c"
  using assms
  by (auto simp: start_recording_defs reset_idx_def Let_def split: if_splits sum.splits)

lemma start_recording_others:
  assumes "start_recording c = Inr c'" "render_target c \<noteq> Some q"
  shows "render_targets c' ! q = render_targets c ! q"
  using assms
  by (auto simp: start_recording_defs Let_def split: if_splits sum.splits option.splits)

lemma start_recording_pools:
  assumes "start_recording c = Inr c'" "\<not> is_recording c" "render_target c = Some p"
  shows "fences (render_targets c' ! p) =
           (if cmd_buffer_idx (reset_idx (frame_timestamp c) (render_targets c ! p))
                 = length (cmd_buffers (render_targets c ! p) ! current_frame_idx c)
            then insert_at (fence_idx (render_targets c ! p)) (next_handle c + 2)
                   (fences (render_targets c ! p))
            else fences (render_targets c ! p))"
    and "cmd_buffers (render_targets c' ! p) =
           (if cmd_buffer_idx (reset_idx (frame_timestamp c) (render_targets c ! p))
                 = length (cmd_buffers (render_targets c ! p) ! current_frame_idx c)
            then (cmd_buffers (render_targets c ! p))[current_frame_idx c :=
                   cmd_buffers (render_targets c ! p) ! current_frame_idx c @ [next_handle c]]
            else cmd_buffers (render_targets c ! p))"
    and "pre_cmd_buffers (render_targets c' ! p) =
           (if cmd_buffer_idx (reset_idx (frame_timestamp c) (render_targets c ! p))
                 = length (cmd_buffers (render_targets c ! p) ! current_frame_idx c)
            then (pre_cmd_buffers (render_targets c ! p))[current_frame_idx c :=
                   pre_cmd_buffers (render_targets c ! p) ! current_frame_idx c
                     @ [next_handle c + 1]]
            else pre_cmd_buffers (render_targets c ! p))"
    and "current_frame_idx c < length (cmd_buffers (render_targets c ! p))"
    and "current_frame_idx c < length (pre_cmd_buffers (render_targets c ! p))"
    and "cmd_buffer_idx (reset_idx (frame_timestamp c) (render_targets c ! p))
           = length (cmd_buffers (render_targets c ! p) ! current_frame_idx c)
         \<Longrightarrow> fence_idx (render_targets c ! p) \<le> length (fences (render_targets c ! p))"
  using assms
  by (auto simp: start_recording_defs reset_idx_def Let_def split: if_splits sum.splits)

lemma start_recording_recording:
  assumes "start_recording c = Inr c'" "render_target c \<noteq> None"
  shows "is_recording c'"
  using assms
  by (auto simp: start_recording_defs Let_def split: if_splits sum.splits option.splits)

lemma reset_idx_same_frame:
  "last_used_frame rt = ts \<Longrightarrow> reset_idx ts rt = rt"
  by (simp add: reset_idx_def)

subsection \<open>The render pass\<close>

lemma start_render_pass_frame:
  assumes "start_render_pass c = Inr c'" "is_recording c"
  shows "render_targets c' = render_targets c"
    and "render_target c' = render_target c"
    and "is_recording c'"
    and "frame_timestamp c' = frame_timestamp c"
    and "current_frame_idx c' = current_frame_idx c"
    and "request_queue c' = request_queue c"
    and "record_state c' = record_state c"
    and "frames c' = frames c"
    and "support_memory_mapping c' = support_memory_mapping c"
    and "\<exists>es. trace c' = trace c @ es \<and> quiet es"
  using assms
  by (auto simp: start_render_pass_def begin_pass_def log_error_def emit_def quiet_def
      map_filter_def Let_def split: if_splits option.splits)

lemma stop_render_pass_frame:
  assumes "stop_render_pass c = Inr c'"
  shows "render_targets c' = render_targets c"
    and "render_target c' = render_target c"
    and "is_recording c' = is_recording c"
    and "frame_timestamp c' = frame_timestamp c"
    and "current_frame_idx c' = current_frame_idx c"
    and "request_queue c' = request_queue c"
    and "record_state c' = record_state c"
    and "frames c' = frames c"
    and "support_memory_mapping c' = support_memory_mapping c"
    and "\<exists>es. trace c' = trace c @ es \<and> quiet es"
  using assms
  by (auto simp: stop_render_pass_def log_error_def emit_def quiet_def
      map_filter_def split: if_splits)

subsection \<open>A recording session\<close>

lemma recording_session_steps:
  assumes "recording_session ext n c = Inr c'"
  obtains c1 c2 c3 where
    "start_recording c = Inr c1"
    "start_render_pass c1 = Inr c2"
    "stop_render_pass c2 = Inr c3"
    "stop_recording ext (fst n) (snd n) c3 = Inr c'"
  using assms unfolding recording_session_def
  by (auto split: sum.splits)

lemma recording_session_effect:
  assumes "recording_session ext n c = Inr c'" "\<not> is_recording c" "render_target c = Some p"
  obtains c1 where
    "start_recording c = Inr c1"
    "\<not> is_recording c'" "render_target c' = Some p"
    "frame_timestamp c' = frame_timestamp c"
    "current_frame_idx c' = current_frame_idx c"
    "cmd_buffer_idx (render_targets c' ! p) = cmd_buffer_idx (render_targets c1 ! p)"
    "last_used_frame (render_targets c' ! p) = last_used_frame (render_targets c1 ! p)"
    "cmd_buffers (render_targets c' ! p) = cmd_buffers (render_targets c1 ! p)"
    "pre_cmd_buffers (render_targets c' ! p) = pre_cmd_buffers (render_targets c1 ! p)"
    "fences (render_targets c' ! p) = fences (render_targets c1 ! p)"
proof -
  from assms(1) obtain c1 c2 c3 where
    s1: "start_recording c = Inr c1" and
    s2: "start_render_pass c1 = Inr c2" and
    s3: "stop_render_pass c2 = Inr c3" and
    s4: "stop_recording ext (fst n) (snd n) c3 = Inr c'"
    by (rule recording_session_steps)
  have r1: "is_recording c1" using start_recording_started(2) [OF s1 assms(2,3)] .
  note f1 = start_recording_frame [OF s1]
  note f2 = start_render_pass_frame [OF s2 r1]
  note f3 = stop_render_pass_frame [OF s3]
  have r3: "is_recording c3" "render_target c3 = Some p" "render_targets c3 = render_targets c1"
    using f1(2) f2(1,2,3) f3(1,2,3) assms(3) by simp_all
  note f4 = stop_recording_frame [OF s4 r3(1)]
  note p4 = stop_recording_pools [OF s4 r3(1,2)]
  show ?thesis
  proof (rule that [OF s1])
    show "\<not> is_recording c'" by (rule f4(1))
    show "render_target c' = Some p" using f4(2) r3(2) by simp
    show "frame_timestamp c' = frame_timestamp c" using f4(3) f3(4) f2(4) f1(3) by simp
    show "current_frame_idx c' = current_frame_idx c" using f4(4) f3(5) f2(5) f1(4) by simp
    show "cmd_buffer_idx (render_targets c' ! p) = cmd_buffer_idx (render_targets c1 ! p)"
      using p4(1) r3(3) by simp
    show "last_used_frame (render_targets c' ! p) = last_used_frame (render_targets c1 ! p)"
      using p4(2) r3(3) by simp
    show "cmd_buffers (render_targets c' ! p) = cmd_buffers (render_targets c1 ! p)"
      using p4(3) r3(3) by simp
    show "pre_cmd_buffers (render_targets c' ! p) = pre_cmd_buffers (render_targets c1 ! p)"
      using p4(4) r3(3) by simp
    show "fences (render_targets c' ! p) = fences (render_targets c1 ! p)"
      using p4(5) r3(3) by simp
  qed
qed

lemma run_sessions_cursor:
  assumes "run_sessions ext ns c = Inr c'" "\<not> is_recording c" "render_target c = Some p"
    "ns \<noteq> []"
  shows "cmd_buffer_idx (render_targets c' ! p)
           = cmd_buffer_idx (reset_idx (frame_timestamp c) (render_targets c ! p)) + length ns
         \<and> last_used_frame (render_targets c' ! p) = frame_timestamp c"
  using assms
proof (induction ns arbitrary: c)
  case Nil
  then show ?case by simp
next
  case (Cons n ns)
  from Cons.prems(1) obtain c1 where
    s: "recording_session ext n c = Inr c1" and rest: "run_sessions ext ns c1 = Inr c'"
    by (auto split: sum.splits)
  from s Cons.prems(2,3) obtain c0 where
    s0: "start_recording c = Inr c0" and
    e: "\<not> is_recording c1" "render_target c1 = Some p"
      "frame_timestamp c1 = frame_timestamp c"
      "cmd_buffer_idx (render_targets c1 ! p) = cmd_buffer_idx (render_targets c0 ! p)"
      "last_used_frame (render_targets c1 ! p) = last_used_frame (render_targets c0 ! p)"
    by (rule recording_session_effect)
  note st = start_recording_started [OF s0 Cons.prems(2,3)]
  have one: "cmd_buffer_idx (render_targets c1 ! p)
      = cmd_buffer_idx (reset_idx (frame_timestamp c) (render_targets c ! p)) + 1"
    "last_used_frame (render_targets c1 ! p) = frame_timestamp c"
    using e(4,5) st(3,4) by simp_all
  show ?case
  proof (cases "ns = []")
    case True
    with rest one show ?thesis by simp
  next
    case False
    from Cons.IH [OF rest e(1,2) False] one e(3) show ?thesis
      by (simp add: reset_idx_same_frame)
  qed
qed

lemma run_sessions_no_growth:
  assumes "run_sessions ext ns c = Inr c'" "\<not> is_recording c" "render_target c = Some p"
    "cmd_buffer_idx (reset_idx (frame_timestamp c) (render_targets c ! p)) + length ns
       \<le> length (cmd_buffers (render_targets c ! p) ! current_frame_idx c)"
  shows "cmd_buffers (render_targets c' ! p) = cmd_buffers (render_targets c ! p)
       \<and> pre_cmd_buffers (render_targets c' ! p) = pre_cmd_buffers (render_targets c ! p)
       \<and> fences (render_targets c' ! p) = fences (render_targets c ! p)
       \<and> \<not> is_recording c' \<and> render_target c' = Some p
       \<and> frame_timestamp c' = frame_timestamp c
       \<and> current_frame_idx c' = current_frame_idx c
       \<and> cmd_buffer_idx (reset_idx (frame_timestamp c) (render_targets c' ! p))
           = cmd_buffer_idx (reset_idx (frame_timestamp c) (render_targets c ! p)) + length ns"
  using assms
proof (induction ns arbitrary: c)
  case Nil
  then show ?case by simp
next
  case (Cons n ns)
  let ?base = "cmd_buffer_idx (reset_idx (frame_timestamp c) (render_targets c ! p))"
  from Cons.prems(1) obtain c1 where
    s: "recording_session ext n c = Inr c1" and rest: "run_sessions ext ns c1 = Inr c'"
    by (auto split: sum.splits)
  from s Cons.prems(2,3) obtain c0 where
    s0: "start_recording c = Inr c0" and
    e: "\<not> is_recording c1" "render_target c1 = Some p"
      "frame_timestamp c1 = frame_timestamp c"
      "current_frame_idx c1 = current_frame_idx c"
      "cmd_buffer_idx (render_targets c1 ! p) = cmd_buffer_idx (render_targets c0 ! p)"
      "last_used_frame (render_targets c1 ! p) = last_used_frame (render_targets c0 ! p)"
      "cmd_buffers (render_targets c1 ! p) = cmd_buffers (render_targets c0 ! p)"
      "pre_cmd_buffers (render_targets c1 ! p) = pre_cmd_buffers (render_targets c0 ! p)"
      "fences (render_targets c1 ! p) = fences (render_targets c0 ! p)"
    by (rule recording_session_effect)
  note st = start_recording_started [OF s0 Cons.prems(2,3)]
  from Cons.prems(4) have room:
    "?base \<noteq> length (cmd_buffers (render_targets c ! p) ! current_frame_idx c)"
    by simp
  note pools = start_recording_pools(1,2,3) [OF s0 Cons.prems(2,3)]
  have same: "cmd_buffers (render_targets c1 ! p) = cmd_buffers (render_targets c ! p)"
    "pre_cmd_buffers (render_targets c1 ! p) = pre_cmd_buffers (render_targets c ! p)"
    "fences (render_targets c1 ! p) = fences (render_targets c ! p)"
    using pools room e(7,8,9) by simp_all
  have cur: "cmd_buffer_idx (reset_idx (frame_timestamp c) (render_targets c1 ! p)) = ?base + 1"
    using e(5,6) st(3,4) by (simp add: reset_idx_same_frame)
  have "cmd_buffer_idx (reset_idx (frame_timestamp c1) (render_targets c1 ! p)) + length ns
       \<le> length (cmd_buffers (render_targets c1 ! p) ! current_frame_idx c1)"
    using Cons.prems(4) cur same(1) by (simp add: e(3,4))
  note ih = Cons.IH [OF rest e(1,2) this, unfolded e(3) e(4) same cur]
  from ih show ?case by simp
qed

subsection \<open>\<open>set_context\<close>\<close>

lemma resolve_color_frame:
  assumes "resolve_color ext c = (c', fmt, hc)"
  shows "render_targets c' = render_targets c"
    and "render_target c' = render_target c"
    and "is_recording c' = is_recording c"
    and "trace c' = trace c"
    and "depth_stencil_surface (record_state c') = depth_stencil_surface (record_state c)"
    and "downscale (color_surface (record_state c'))
           \<longleftrightarrow> downscale (color_surface (record_state c))
               \<and> data (color_surface (record_state c)) \<noteq> 0"
    and "hc \<longleftrightarrow> data (color_surface (record_state c)) \<noteq> 0"
  using assms
  by (auto simp: resolve_color_def Let_def split: if_splits)

lemma resolve_color_null:
  assumes "resolve_color ext c = (c', fmt, hc)" "data (color_surface (record_state c)) = 0"
  shows "fmt = eR8G8B8A8Unorm"
    and "\<not> is_gamma_corrected (record_state c')"
    and "\<not> is_maskupdate (record_state c')"
    and "color_base_format (record_state c') = SCE_GXM_COLOR_BASE_FORMAT_U8U8U8U8"
  using assms
  by (auto simp: resolve_color_def Let_def split: if_splits)

lemma double_extent_frame:
  shows "render_target (double_extent p c) = render_target c"
    and "is_recording (double_extent p c) = is_recording c"
    and "trace (double_extent p c) = trace c"
    and "record_state (double_extent p c) = record_state c"
    and "length (render_targets (double_extent p c)) = length (render_targets c)"
    and "q \<noteq> p \<Longrightarrow> render_targets (double_extent p c) ! q = render_targets c ! q"
    and "p < length (render_targets c) \<Longrightarrow>
          multisample_mode (render_targets (double_extent p c) ! p)
            = multisample_mode (render_targets c ! p)
          \<and> width (render_targets (double_extent p c) ! p)
            = (if multisample_mode (render_targets c ! p) \<noteq> 0
                  \<and> \<not> downscale (color_surface (record_state c))
               then width (render_targets c ! p) * 2 else width (render_targets c ! p))
          \<and> height (render_targets (double_extent p c) ! p)
            = (if multisample_mode (render_targets c ! p) \<noteq> 0
                  \<and> \<not> downscale (color_surface (record_state c))
               then height (render_targets c ! p) * 2 else height (render_targets c ! p))"
  by (simp_all add: double_extent_def upd_rt_def)

lemma retrieve_handles_frame:
  shows "render_targets (retrieve_handles ext p fmt hc c) = render_targets c"
    and "render_target (retrieve_handles ext p fmt hc c) = render_target c"
    and "is_recording (retrieve_handles ext p fmt hc c) = is_recording c"
    and "record_state (retrieve_handles ext p fmt hc c) = record_state c"
    and "use_mask_bit (retrieve_handles ext p fmt hc c) = use_mask_bit c"
    and "\<exists>es. trace (retrieve_handles ext p fmt hc c) = trace c @ es
           \<and> List.map_filter submission es = []
           \<and> List.map_filter sync_result es = []
           \<and> List.map_filter render_pass_request es
               = [(fmt, zlsControl (depth_stencil_surface (record_state c)))]
           \<and> List.map_filter framebuffer_request es
               = [if hc then Some (color_surface (record_state c)) else None]"
  by (simp_all add: retrieve_handles_def emit_def Let_def map_filter_def split: prod.splits)

lemma set_context_steps:
  assumes "set_context ext rt c = Inr c'"
  obtains p c3 fmt hc c4 where
    "resolve_color ext
       (c\<lparr>render_target := (case rt of Some p \<Rightarrow> Some p | None \<Rightarrow> current_render_target c),
          scene_timestamp := scene_timestamp c + 1\<rparr>) = (c3, fmt, hc)"
    "render_target c3 = Some p"
    "p < length (render_targets c3)"
    "start_recording (emit (SetRenderTarget (Some p)) (double_extent p c3)) = Inr c4"
    "start_render_pass
       (if use_mask_bit (retrieve_handles ext p fmt hc c4)
        then emit SyncMask (retrieve_handles ext p fmt hc c4)
        else retrieve_handles ext p fmt hc c4) = Inr c'"
  using assms unfolding set_context_def Let_def
  by (auto split: prod.splits option.splits if_splits sum.splits)

lemma mask_step_frame:
  fixes c :: "'w::len VKContext"
  defines "c' \<equiv> (if use_mask_bit c then emit SyncMask c else c)"
  shows "render_targets c' = render_targets c"
    and "render_target c' = render_target c"
    and "is_recording c' = is_recording c"
    and "record_state c' = record_state c"
    and "\<exists>es. trace c' = trace c @ es \<and> quiet es"
  by (simp_all add: c'_def emit_def quiet_def map_filter_def)

text \<open>A successful \<open>set_context\<close>: the target \<open>p\<close> it binds, and the events \<open>es\<close> it adds.\<close>

lemma set_context_cases:
  assumes "set_context ext rt c = Inr c'"
  obtains p es where
    "(case rt of Some p \<Rightarrow> Some p | None \<Rightarrow> current_render_target c) = Some p"
    "p < length (render_targets c)"
    "render_target c' = Some p"
    "is_recording c'"
    "length (render_targets c') = length (render_targets c)"
    "multisample_mode (render_targets c' ! p) = multisample_mode (render_targets c ! p)"
    "width (render_targets c' ! p)
       = (if multisample_mode (render_targets c ! p) \<noteq> 0
             \<and> \<not> (downscale (color_surface (record_state c))
                  \<and> data (color_surface (record_state c)) \<noteq> 0)
          then width (render_targets c ! p) * 2 else width (render_targets c ! p))"
    "height (render_targets c' ! p)
       = (if multisample_mode (render_targets c ! p) \<noteq> 0
             \<and> \<not> (downscale (color_surface (record_state c))
                  \<and> data (color_surface (record_state c)) \<noteq> 0)
          then height (render_targets c ! p) * 2 else height (render_targets c ! p))"
    "\<And>q. q \<noteq> p \<Longrightarrow> width (render_targets c' ! q) = width (render_targets c ! q)
                  \<and> height (render_targets c' ! q) = height (render_targets c ! q)"
    "downscale (color_surface (record_state c'))
       \<longleftrightarrow> downscale (color_surface (record_state c))
           \<and> data (color_surface (record_state c)) \<noteq> 0"
    "data (color_surface (record_state c)) = 0 \<Longrightarrow>
       \<not> is_gamma_corrected (record_state c') \<and> \<not> is_maskupdate (record_state c')
       \<and> color_base_format (record_state c') = SCE_GXM_COLOR_BASE_FORMAT_U8U8U8U8"
    "trace c' = trace c @ es"
    "List.map_filter submission es = []"
    "data (color_surface (record_state c)) = 0 \<Longrightarrow>
       List.map_filter render_pass_request es
         = [(eR8G8B8A8Unorm, zlsControl (depth_stencil_surface (record_state c)))]
       \<and> List.map_filter framebuffer_request es = [None]"
proof -
  let ?c0 = "c\<lparr>render_target := (case rt of Some p \<Rightarrow> Some p | None \<Rightarrow> current_render_target c),
          scene_timestamp := scene_timestamp c + 1\<rparr>"
  from assms obtain p c3 fmt hc c4 where
    s1: "resolve_color ext ?c0 = (c3, fmt, hc)" and
    s2: "render_target c3 = Some p" and
    s3: "p < length (render_targets c3)" and
    s4: "start_recording (emit (SetRenderTarget (Some p)) (double_extent p c3)) = Inr c4" and
    s5: "start_render_pass
       (if use_mask_bit (retrieve_handles ext p fmt hc c4)
        then emit SyncMask (retrieve_handles ext p fmt hc c4)
        else retrieve_handles ext p fmt hc c4) = Inr c'"
    by (rule set_context_steps)
  let ?cd = "emit (SetRenderTarget (Some p)) (double_extent p c3)"
  let ?c5 = "retrieve_handles ext p fmt hc c4"
  let ?c6 = "if use_mask_bit ?c5 then emit SyncMask ?c5 else ?c5"
  note r = resolve_color_frame [OF s1]
  have c0: "render_targets ?c0 = render_targets c" "is_recording ?c0 = is_recording c"
    "trace ?c0 = trace c" "record_state ?c0 = record_state c"
    "render_target ?c0 = (case rt of Some p \<Rightarrow> Some p | None \<Rightarrow> current_render_target c)"
    by simp_all
  have bound: "(case rt of Some p \<Rightarrow> Some p | None \<Rightarrow> current_render_target c) = Some p"
    using s2 r(2) c0(5) by simp
  have len: "p < length (render_targets c)" using s3 r(1) c0(1) by simp
  note d = double_extent_frame [where p = p and c = c3]
  have cd: "render_target ?cd = Some p" "record_state ?cd = record_state c3"
    "length (render_targets ?cd) = length (render_targets c)"
    "trace ?cd = trace c @ [SetRenderTarget (Some p)]"
    "render_targets ?cd = render_targets (double_extent p c3)"
    using d(1,3,4,5) s2 r(1,4) c0(1,3) by (simp_all add: emit_def)
  note f4 = start_recording_frame [OF s4]
  note e4 = start_recording_extent [OF s4]
  have r4: "is_recording c4" using start_recording_recording [OF s4] cd(1) by simp
  from start_recording_trace [OF s4] obtain es4 where
    t4: "trace c4 = trace ?cd @ es4" and q4: "quiet es4" by blast
  note h5 = retrieve_handles_frame [where ext = ext and p = p and fmt = fmt and hc = hc and c = c4]
  from h5(6) obtain es5 where
    t5: "trace ?c5 = trace c4 @ es5" and
    q5: "List.map_filter submission es5 = []"
      "List.map_filter render_pass_request es5
         = [(fmt, zlsControl (depth_stencil_surface (record_state c4)))]"
      "List.map_filter framebuffer_request es5
         = [if hc then Some (color_surface (record_state c4)) else None]"
    by blast
  note m6 = mask_step_frame [where c = ?c5]
  from m6(5) obtain es6 where
    t6: "trace ?c6 = trace ?c5 @ es6" and q6: "quiet es6" by blast
  have r6: "is_recording ?c6" using m6(3) h5(3) r4 by simp
  note f7 = start_render_pass_frame [OF s5 r6]
  from f7(10) obtain es7 where
    t7: "trace c' = trace ?c6 @ es7" and q7: "quiet es7" by blast
  have rts: "render_targets c' = render_targets c4"
    using f7(1) m6(1) h5(1) by simp
  have rs: "record_state c' = record_state c3"
    using f7(7) m6(4) h5(4) f4(6) cd(2) by simp
  define es where "es = [SetRenderTarget (Some p)] @ es4 @ es5 @ es6 @ es7"
  have tr: "trace c' = trace c @ es"
    by (simp add: t7 t6 t5 t4 cd(4) es_def)
  have sub: "List.map_filter submission es = []"
    using q4 q5(1) q6 q7 by (simp add: es_def quiet_def map_filter_def)
  have ds: "depth_stencil_surface (record_state c4) = depth_stencil_surface (record_state c)"
    using f4(6) cd(2) r(5) c0(4) by simp
  have req: "List.map_filter render_pass_request es
         = [(eR8G8B8A8Unorm, zlsControl (depth_stencil_surface (record_state c)))]
       \<and> List.map_filter framebuffer_request es = [None]"
    if z: "data (color_surface (record_state c)) = 0"
  proof -
    from z r(7) c0(4) have "\<not> hc" by simp
    moreover from z c0(4) have "fmt = eR8G8B8A8Unorm"
      using resolve_color_null(1) [OF s1] by simp
    ultimately show ?thesis
      using q4 q5(2,3) q6 q7 ds by (simp add: es_def quiet_def map_filter_def)
  qed
  have null: "\<not> is_gamma_corrected (record_state c') \<and> \<not> is_maskupdate (record_state c')
       \<and> color_base_format (record_state c') = SCE_GXM_COLOR_BASE_FORMAT_U8U8U8U8"
    if z: "data (color_surface (record_state c)) = 0"
    using resolve_color_null(2,3,4) [OF s1] z c0(4) rs by simp
  have dsc: "downscale (color_surface (record_state c'))
       \<longleftrightarrow> downscale (color_surface (record_state c))
           \<and> data (color_surface (record_state c)) \<noteq> 0"
    using r(6) rs c0(4) by simp
  have dsc3: "downscale (color_surface (record_state c3))
       \<longleftrightarrow> downscale (color_surface (record_state c))
           \<and> data (color_surface (record_state c)) \<noteq> 0"
    using r(6) c0(4) by simp
  have tgt: "multisample_mode (render_targets c' ! p) = multisample_mode (render_targets c ! p)"
    "width (render_targets c' ! p)
       = (if multisample_mode (render_targets c ! p) \<noteq> 0
             \<and> \<not> (downscale (color_surface (record_state c))
                  \<and> data (color_surface (record_state c)) \<noteq> 0)
          then width (render_targets c ! p) * 2 else width (render_targets c ! p))"
    "height (render_targets c' ! p)
       = (if multisample_mode (render_targets c ! p) \<noteq> 0
             \<and> \<not> (downscale (color_surface (record_state c))
                  \<and> data (color_surface (record_state c)) \<noteq> 0)
          then height (render_targets c ! p) * 2 else height (render_targets c ! p))"
    using d(7) [OF s3] e4(1,2,3) [of p] by (simp_all add: rts cd(5) dsc3 r(1) c0(1))
  have oth: "width (render_targets c' ! q) = width (render_targets c ! q)
                  \<and> height (render_targets c' ! q) = height (render_targets c ! q)"
    if "q \<noteq> p" for q
    using d(6) [OF that] e4(1,2) [of q] by (simp add: rts cd(5) r(1) c0(1))
  have b: "render_target c' = Some p" using f7(2) m6(2) h5(2) f4(2) cd(1) by simp
  have lens: "length (render_targets c') = length (render_targets c)"
    using rts f4(1) cd(3) by simp
  from bound len b f7(3) lens tgt oth dsc null tr sub req show ?thesis
    by (rule that)
qed

subsection \<open>Doubling and halving a machine integer\<close>

lemma unat_double:
  fixes w :: "'w::len word"
  assumes "2 * unat w < 2 ^ LENGTH('w)"
  shows "unat (w * 2) = 2 * unat w"
  by (metis assms mult_2 mult_2_right unat_add_lem)

lemma double_then_halve:
  fixes w :: "'w::len word"
  assumes "2 * unat w < 2 ^ LENGTH('w)"
  shows "w * 2 div 2 = w"
proof (cases "LENGTH('w) = 1")
  case True
  with assms have "unat w = 0" by simp
  then have "w = 0" by (simp add: unat_eq_0)
  then show ?thesis by simp
next
  case False
  have "0 < LENGTH('w)" by simp
  with False have "2 \<le> LENGTH('w)" by linarith
  then have two: "unat (2 :: 'w word) = 2"
    by simp
  have "unat (w * 2 div 2) = unat (w * 2) div unat (2 :: 'w word)"
    by (rule unat_div)
  also have "\<dots> = unat w"
    unfolding unat_double [OF assms] two by simp
  finally show ?thesis
    by (meson word_eq_iff_unsigned)
qed

text \<open>At any width of the field, doubling and then halving \<open>2 ^ (w - 1)\<close> gives 0.\<close>

lemma double_then_halve_overflow:
  "(2 ^ (LENGTH('w::len) - 1) :: 'w word) * 2 div 2 = 0"
  "(2 ^ (LENGTH('w::len) - 1) :: 'w word) \<noteq> 0"
proof -
  have e: "Suc (LENGTH('w) - 1) = LENGTH('w)" by simp
  have z: "(2 :: 'w word) ^ Suc (LENGTH('w) - 1) = 0" unfolding e by simp
  have "(2 ^ (LENGTH('w) - 1) :: 'w word) * 2 = 2 ^ Suc (LENGTH('w) - 1)"
    by (simp only: power_Suc mult.commute)
  with z have "(2 ^ (LENGTH('w) - 1) :: 'w word) * 2 = 0" by (simp only:)
  then show "(2 ^ (LENGTH('w::len) - 1) :: 'w word) * 2 div 2 = 0" by (simp only: div_0)
  show "(2 ^ (LENGTH('w::len) - 1) :: 'w word) \<noteq> 0"
    by (simp add: exp_eq_zero_iff)
qed

text \<open>Where twice the value does not fit the field, doubling and then halving gives
  another value.\<close>

lemma mod_once: "(m::nat) \<le> x \<Longrightarrow> x < 2 * m \<Longrightarrow> x mod m = x - m"
  by (simp add: le_mod_geq)

lemma double_then_halve_wraps:
  fixes w :: "'w::len word"
  assumes "2 ^ LENGTH('w) \<le> 2 * unat w"
  shows "w * 2 div 2 \<noteq> w"
proof (cases "LENGTH('w) = 1")
  case True
  then have two: "(2 :: 'w word) = 0"
    by (metis power_one_right word_exp_length_eq_0)
  from assms True have "unat w \<noteq> 0" by simp
  then have "w \<noteq> 0" by (simp add: unat_eq_0)
  then show ?thesis by (simp add: two)
next
  case False
  have "0 < LENGTH('w)" by simp
  with False have l: "2 \<le> LENGTH('w)" by linarith
  then have two: "unat (2 :: 'w word) = 2"
    by simp
  define m :: nat where "m = 2 ^ LENGTH('w)"
  have lt: "unat w < m" unfolding m_def by (rule unsigned_less)
  have le: "m \<le> 2 * unat w" using assms by (simp add: m_def)
  have "unat (w * 2) = (unat w * unat (2 :: 'w word)) mod m"
    unfolding m_def by (rule unat_word_ariths(2))
  then have u: "unat (w * 2) = (2 * unat w) mod m"
    unfolding two by (simp only: mult.commute)
  have "(2 * unat w) mod m = 2 * unat w - m"
    using le lt by (intro mod_once) simp_all
  with u have u': "unat (w * 2) = 2 * unat w - m" by simp
  have "unat (w * 2 div 2) = unat (w * 2) div unat (2 :: 'w word)"
    by (rule unat_div)
  then have "unat (w * 2 div 2) = (2 * unat w - m) div 2"
    unfolding u' two .
  moreover have "0 < m" by (simp add: m_def)
  ultimately have "unat (w * 2 div 2) < unat w"
    using le by linarith
  then show ?thesis by auto
qed

subsection \<open>The wait thread\<close>

lemma waited_append: "waited (xs @ ys) = waited xs @ waited ys"
  by (simp add: waited_def)

lemma new_calls_append: "calls s' = calls s @ es \<Longrightarrow> new_calls s s' = es"
  by (simp add: new_calls_def)

lemma wait_for_fences_Inr:
  assumes "wait_for_fences nd ext s = Inr s'"
  shows "mem s' = mem s" and "last_frame_waited s' = last_frame_waited s"
    and "\<exists>ws. calls s' = calls s @ ws \<and> filter is_effect ws = []
           \<and> set (pending s) \<subseteq> set (pending s') \<union> set (waited ws)"
  using assms
  by (auto simp: wait_for_fences_def waited_def Let_def split: if_splits)

text \<open>With assertions enabled, or when the wait succeeds, the lambda returns only after
  a wait on every pending fence has succeeded.\<close>

lemma wait_for_fences_flushed:
  assumes "wait_for_fences nd ext s = Inr s'"
    and "\<not> nd \<or> waitForFences ext (calls s) (pending s)"
  shows "pending s' = []"
    and "\<exists>ws. calls s' = calls s @ ws \<and> filter is_effect ws = []
           \<and> set (pending s) \<subseteq> set (waited ws)"
  using assms
  by (auto simp: wait_for_fences_def waited_def Let_def split: if_splits)

lemma wait_for_fences_Inl:
  assumes "wait_for_fences nd ext s = Inl (e, s')"
  shows "e = AssertionFailure" and "mem s' = mem s" and "\<not> nd"
    and "\<exists>ws. calls s' = calls s @ ws \<and> filter is_effect ws = []"
  using assms
  by (auto simp: wait_for_fences_def Let_def split: if_splits)

lemma notify_calls:
  "calls (call NotifyAll (call (MutexUnlock notification_mutex)
      (write_notification n1 (write_notification n0
        (call (MutexLock notification_mutex) s)))))
   = calls s @ [MutexLock notification_mutex] @ guest_writes n0 n1
       @ [MutexUnlock notification_mutex, NotifyAll]"
  by (simp add: call_def write_notification_def guest_writes_def)

lemma notify_state:
  "pending (call NotifyAll (call (MutexUnlock notification_mutex)
      (write_notification n1 (write_notification n0
        (call (MutexLock notification_mutex) s))))) = pending s"
  "mem (call NotifyAll (call (MutexUnlock notification_mutex)
      (write_notification n1 (write_notification n0
        (call (MutexLock notification_mutex) s)))))
   = (let m0 = (if n_address n0 \<noteq> 0 then (mem s)(n_address n0 := n_value n0) else mem s)
      in if n_address n1 \<noteq> 0 then m0(n_address n1 := n_value n1) else m0)"
  by (simp_all add: call_def write_notification_def)

lemma filter_effect_guest_writes: "filter is_effect (guest_writes n0 n1) = guest_writes n0 n1"
  by (simp add: guest_writes_def)

text \<open>
  What a handler that returns has done, by the lambda's result \<open>s1\<close>: the calls of the
  lambda, then the calls of the handler's own.
\<close>

lemma handle_request_steps:
  assumes "handle_request nd ext r s = Inr s'" and "effects r \<noteq> []"
  obtains s1 es where
    "wait_for_fences nd ext (s\<lparr>pending := pending s @ request_fence r\<rparr>) = Inr s1"
    "calls s' = calls s1 @ es" "filter is_effect es = effects r" "pending s' = pending s1"
proof (cases r)
  case (NotificationRequest n0 n1 fence)
  with assms(2) have a: "n_address n0 \<noteq> 0 \<or> n_address n1 \<noteq> 0"
    by (auto split: if_splits)
  with assms(1) NotificationRequest obtain s2 where
    w: "wait_for_fences nd ext (s\<lparr>pending := pending s @ [fence]\<rparr>) = Inr s2" and
    s': "s' = call NotifyAll (call (MutexUnlock notification_mutex)
          (write_notification n1 (write_notification n0
            (call (MutexLock notification_mutex) s2))))"
    by (auto simp: Let_def split: sum.splits)
  have "calls s' = calls s2 @ ([MutexLock notification_mutex] @ guest_writes n0 n1
       @ [MutexUnlock notification_mutex, NotifyAll])"
    by (simp add: s' notify_calls)
  moreover have "filter is_effect ([MutexLock notification_mutex] @ guest_writes n0 n1
       @ [MutexUnlock notification_mutex, NotifyAll]) = effects r"
    using a by (simp add: NotificationRequest filter_effect_guest_writes)
  moreover have "pending s' = pending s2" by (simp add: s' notify_state)
  ultimately show ?thesis using w that by (simp add: NotificationRequest)
next
  case (FrameDoneRequest ts)
  with assms(1) obtain s1 where
    w: "wait_for_fences nd ext s = Inr s1" and
    s': "s' = call NotifyOne (call (MutexUnlock new_frame_mutex)
                ((call (MutexLock new_frame_mutex) s1)\<lparr>last_frame_waited := ts\<rparr>))"
    by (auto split: sum.splits)
  have "calls s' = calls s1 @ [MutexLock new_frame_mutex, MutexUnlock new_frame_mutex,
      NotifyOne]"
    by (simp add: s' call_def)
  moreover have "filter is_effect [MutexLock new_frame_mutex, MutexUnlock new_frame_mutex,
      NotifyOne] = effects r"
    by (simp add: FrameDoneRequest)
  moreover have "pending s' = pending s1" by (simp add: s' call_def)
  ultimately show ?thesis using w that by (simp add: FrameDoneRequest)
next
  case (PostSurfaceSyncRequest info)
  with assms(1) obtain s1 where
    w: "wait_for_fences nd ext s = Inr s1" and
    s': "s' = call (PerformPostSurfaceSync info) s1"
    by (auto split: sum.splits)
  have "calls s' = calls s1 @ [PerformPostSurfaceSync info]"
    by (simp add: s' call_def)
  moreover have "filter is_effect [PerformPostSurfaceSync info] = effects r"
    by (simp add: PostSurfaceSyncRequest)
  moreover have "pending s' = pending s1" by (simp add: s' call_def)
  ultimately show ?thesis using w that by (simp add: PostSurfaceSyncRequest)
qed

text \<open>In both builds: the effects of a handler that returns are those of its request,
  and no fence is lost: each is still pending or is a fence of a wait that succeeded.\<close>

lemma handle_request_Inr:
  assumes "handle_request nd ext r s = Inr s'"
  shows "\<exists>es. calls s' = calls s @ es \<and> filter is_effect es = effects r
           \<and> set (pending s) \<union> set (request_fence r) \<subseteq> set (pending s') \<union> set (waited es)"
proof (cases "effects r = []")
  case True
  then obtain n0 n1 fence where
    r: "r = NotificationRequest n0 n1 fence" and a: "\<not> (n_address n0 \<noteq> 0 \<or> n_address n1 \<noteq> 0)"
    by (cases r) (auto split: if_splits)
  with assms have "s' = s\<lparr>pending := pending s @ [fence]\<rparr>"
    by (simp add: Let_def)
  with a r show ?thesis by (auto simp: waited_def)
next
  case False
  from assms False obtain s1 es where
    w: "wait_for_fences nd ext (s\<lparr>pending := pending s @ request_fence r\<rparr>) = Inr s1" and
    e: "calls s' = calls s1 @ es" "filter is_effect es = effects r" "pending s' = pending s1"
    by (rule handle_request_steps)
  from wait_for_fences_Inr(3) [OF w] obtain ws where
    ws: "calls s1 = calls s @ ws" "filter is_effect ws = []"
      "set (pending s) \<union> set (request_fence r) \<subseteq> set (pending s1) \<union> set (waited ws)"
    by auto
  have "calls s' = calls s @ (ws @ es)" by (simp add: e(1) ws(1))
  moreover have "filter is_effect (ws @ es) = effects r" by (simp add: e(2) ws(2))
  moreover have "set (pending s) \<union> set (request_fence r)
      \<subseteq> set (pending s') \<union> set (waited (ws @ es))"
    using ws(3) by (auto simp: e(3) waited_append)
  ultimately show ?thesis by blast
qed

text \<open>With assertions enabled, or on a device whose waits all succeed: before the first
  effect of a request, a wait has succeeded on every fence that was pending and on the
  fence of the request, and the batch is empty afterwards.\<close>

lemma handle_request_flushed:
  assumes "handle_request nd ext r s = Inr s'" and "effects r \<noteq> []"
    and "\<not> nd \<or> (\<forall>cs fs. waitForFences ext cs fs)"
  shows "\<exists>ws es. calls s' = calls s @ ws @ es \<and> filter is_effect ws = []
           \<and> filter is_effect es = effects r
           \<and> set (pending s) \<union> set (request_fence r) \<subseteq> set (waited ws)
           \<and> pending s' = []"
proof -
  from assms(1,2) obtain s1 es where
    w: "wait_for_fences nd ext (s\<lparr>pending := pending s @ request_fence r\<rparr>) = Inr s1" and
    e: "calls s' = calls s1 @ es" "filter is_effect es = effects r" "pending s' = pending s1"
    by (rule handle_request_steps)
  from assms(3) have ok: "\<not> nd \<or> waitForFences ext
      (calls (s\<lparr>pending := pending s @ request_fence r\<rparr>))
      (pending (s\<lparr>pending := pending s @ request_fence r\<rparr>))"
    by blast
  from wait_for_fences_flushed(2) [OF w ok] obtain ws where
    ws: "calls s1 = calls s @ ws" "filter is_effect ws = []"
      "set (pending s) \<union> set (request_fence r) \<subseteq> set (waited ws)"
    by auto
  have "calls s' = calls s @ ws @ es" by (simp add: e(1) ws(1))
  moreover have "pending s' = []" using wait_for_fences_flushed(1) [OF w ok] by (simp add: e(3))
  ultimately show ?thesis using ws(2,3) e(2) by blast
qed

lemma handle_request_Inl:
  assumes "handle_request nd ext r s = Inl (e, s')"
  shows "e = AssertionFailure" and "mem s' = mem s" and "\<not> nd"
    and "\<exists>es. calls s' = calls s @ es \<and> filter is_effect es = []"
proof -
  have "e = AssertionFailure \<and> mem s' = mem s \<and> \<not> nd
      \<and> (\<exists>es. calls s' = calls s @ es \<and> filter is_effect es = [])"
  proof (cases r)
    case (NotificationRequest n0 n1 fence)
    with assms have "wait_for_fences nd ext (s\<lparr>pending := pending s @ [fence]\<rparr>) = Inl (e, s')"
      by (auto simp: Let_def split: sum.splits if_splits)
    from wait_for_fences_Inl [OF this] show ?thesis by simp
  next
    case (FrameDoneRequest ts)
    with assms have "wait_for_fences nd ext s = Inl (e, s')"
      by (auto split: sum.splits)
    from wait_for_fences_Inl [OF this] show ?thesis by simp
  next
    case (PostSurfaceSyncRequest info)
    with assms have "wait_for_fences nd ext s = Inl (e, s')"
      by (auto split: sum.splits)
    from wait_for_fences_Inl [OF this] show ?thesis by simp
  qed
  then show "e = AssertionFailure" and "mem s' = mem s" and "\<not> nd"
    and "\<exists>es. calls s' = calls s @ es \<and> filter is_effect es = []"
    by simp_all
qed

lemma wait_thread_loop_append:
  "wait_thread_loop nd ext (xs @ ys) s =
     (case wait_thread_loop nd ext xs s of
        Inl e \<Rightarrow> Inl e
      | Inr s1 \<Rightarrow> wait_thread_loop nd ext ys s1)"
  by (induction xs arbitrary: s) (auto split: sum.splits)

lemma wait_thread_loop_Inr:
  assumes "wait_thread_loop nd ext q s = Inr s'"
  shows "\<exists>es. calls s' = calls s @ es \<and> filter is_effect es = concat (map effects q)
           \<and> set (pending s) \<union> set (request_fences q) \<subseteq> set (pending s') \<union> set (waited es)"
  using assms
proof (induction q arbitrary: s)
  case Nil
  then show ?case by (simp add: request_fences_def waited_def)
next
  case (Cons r q)
  from Cons.prems obtain s1 where
    h: "handle_request nd ext r s = Inr s1" and l: "wait_thread_loop nd ext q s1 = Inr s'"
    by (auto split: sum.splits)
  from handle_request_Inr [OF h] obtain es1 where
    e1: "calls s1 = calls s @ es1" "filter is_effect es1 = effects r"
      "set (pending s) \<union> set (request_fence r) \<subseteq> set (pending s1) \<union> set (waited es1)"
    by blast
  from Cons.IH [OF l] obtain es2 where
    e2: "calls s' = calls s1 @ es2" "filter is_effect es2 = concat (map effects q)"
      "set (pending s1) \<union> set (request_fences q) \<subseteq> set (pending s') \<union> set (waited es2)"
    by blast
  have "calls s' = calls s @ (es1 @ es2)" by (simp add: e1(1) e2(1))
  moreover have "filter is_effect (es1 @ es2) = concat (map effects (r # q))"
    by (simp add: e1(2) e2(2))
  moreover have "set (pending s) \<union> set (request_fences (r # q))
      \<subseteq> set (pending s') \<union> set (waited (es1 @ es2))"
    using e1(3) e2(3) by (auto simp: request_fences_def waited_append)
  ultimately show ?case by blast
qed

lemma wait_thread_loop_Inl:
  assumes "wait_thread_loop nd ext q s = Inl (e, s')"
  shows "\<exists>es k. k < length q \<and> calls s' = calls s @ es
           \<and> filter is_effect es = concat (map effects (take k q))"
  using assms
proof (induction q arbitrary: s)
  case Nil
  then show ?case by simp
next
  case (Cons r q)
  show ?case
  proof (cases "handle_request nd ext r s")
    case (Inl x)
    with Cons.prems have h: "handle_request nd ext r s = Inl (e, s')" by simp
    from handle_request_Inl(4) [OF h] obtain es where
      "calls s' = calls s @ es" "filter is_effect es = []" by blast
    then have "0 < length (r # q) \<and> calls s' = calls s @ es
        \<and> filter is_effect es = concat (map effects (take 0 (r # q)))"
      by simp
    then show ?thesis by blast
  next
    case (Inr s1)
    with Cons.prems have l: "wait_thread_loop nd ext q s1 = Inl (e, s')" by simp
    from handle_request_Inr [OF Inr] obtain es1 where
      e1: "calls s1 = calls s @ es1" "filter is_effect es1 = effects r"
      by blast
    from Cons.IH [OF l] obtain es2 k where
      e2: "k < length q" "calls s' = calls s1 @ es2"
        "filter is_effect es2 = concat (map effects (take k q))"
      by blast
    have "Suc k < length (r # q) \<and> calls s' = calls s @ (es1 @ es2)
        \<and> filter is_effect (es1 @ es2) = concat (map effects (take (Suc k) (r # q)))"
      using e1 e2 by simp
    then show ?thesis by blast
  qed
qed

subsection \<open>Unfolding the definitions on the examples\<close>

lemmas stop_recording_defs =
  stop_recording_def end_query_def stop_render_pass_def copy_query_results_def
  surface_sync_def submit_commands_def push_requests_def queue_push_def revert_extent_def
  upd_rt_def log_error_def emit_def

lemmas example_defs =
  example_context_def example_target_def example_record_def
  example_extern_def example_notif1_def example_notif2_def

lemmas session_defs =
  recording_session_def start_recording_defs reset_idx_def start_render_pass_def begin_pass_def
  clear_samplers_def stop_recording_defs insert_at_def

lemmas set_context_defs =
  set_context_def resolve_color_def double_extent_def retrieve_handles_def session_defs

section \<open>The command-buffer cursor\<close>

text \<open>
  C1. A \<open>start_recording\<close> that starts a session (the context is not recording and a
  render target is bound) leaves the target's \<open>cmd_buffer_idx\<close> one above its base, where
  the base is 0 when \<open>last_used_frame\<close> differs from the context's \<open>frame_timestamp\<close> and
  the old cursor otherwise; and it sets \<open>last_used_frame\<close> to the frame timestamp. Over a
  run of sessions (\<open>start_recording\<close>, \<open>start_render_pass\<close>, \<open>stop_render_pass\<close>,
  \<open>stop_recording\<close>) the cursor ends at the base plus the number of sessions: one step per
  session, with the reset in the first session of a new frame only.
\<close>

theorem cmd_buffer_idx_per_session:
  assumes "\<not> is_recording c" and "render_target c = Some p"
  shows "(start_recording c = Inr c1 \<longrightarrow>
            cmd_buffer_idx (render_targets c1 ! p) =
              (if last_used_frame (render_targets c ! p) \<noteq> frame_timestamp c then 0
               else cmd_buffer_idx (render_targets c ! p)) + 1
            \<and> last_used_frame (render_targets c1 ! p) = frame_timestamp c)
       \<and> (run_sessions ext ns c = Inr c' \<and> ns \<noteq> [] \<longrightarrow>
            cmd_buffer_idx (render_targets c' ! p) =
              (if last_used_frame (render_targets c ! p) \<noteq> frame_timestamp c then 0
               else cmd_buffer_idx (render_targets c ! p)) + length ns
            \<and> last_used_frame (render_targets c' ! p) = frame_timestamp c)"
proof -
  have base: "cmd_buffer_idx (reset_idx (frame_timestamp c) (render_targets c ! p)) =
      (if last_used_frame (render_targets c ! p) \<noteq> frame_timestamp c then 0
       else cmd_buffer_idx (render_targets c ! p))"
    by (simp add: reset_idx_def)
  have one: "start_recording c = Inr c1 \<Longrightarrow>
      cmd_buffer_idx (render_targets c1 ! p) =
        (if last_used_frame (render_targets c ! p) \<noteq> frame_timestamp c then 0
         else cmd_buffer_idx (render_targets c ! p)) + 1
      \<and> last_used_frame (render_targets c1 ! p) = frame_timestamp c"
    using start_recording_started(3,4) [OF _ assms, of c1] unfolding base by blast
  have many: "run_sessions ext ns c = Inr c' \<Longrightarrow> ns \<noteq> [] \<Longrightarrow>
      cmd_buffer_idx (render_targets c' ! p) =
        (if last_used_frame (render_targets c ! p) \<noteq> frame_timestamp c then 0
         else cmd_buffer_idx (render_targets c ! p)) + length ns
      \<and> last_used_frame (render_targets c' ! p) = frame_timestamp c"
    using run_sessions_cursor [OF _ assms, of ext ns c'] unfolding base by blast
  from one many show ?thesis by blast
qed

theorem cmd_buffer_idx_per_session_witness:
  "\<not> is_recording example_context \<and> render_target example_context = Some 0
   \<and> last_used_frame (render_targets example_context ! 0) \<noteq> frame_timestamp example_context
   \<and> (\<exists>c1. start_recording example_context = Inr c1
         \<and> cmd_buffer_idx (render_targets c1 ! 0) = 1
         \<and> last_used_frame (render_targets c1 ! 0) = 5)
   \<and> (\<exists>c'. run_sessions example_extern
           [(example_notif1, example_notif2), (example_notif2, example_notif1)] example_context
         = Inr c'
         \<and> cmd_buffer_idx (render_targets c' ! 0) = 2
         \<and> last_used_frame (render_targets c' ! 0) = 5)"
proof -
  have a: "\<not> is_recording example_context" "render_target example_context = Some 0"
    by (simp_all add: example_context_def)
  have b: "last_used_frame (render_targets example_context ! 0) \<noteq> frame_timestamp example_context"
    by (simp add: example_context_def example_target_def)
  obtain c1 where c1: "start_recording example_context = Inr c1"
    by (simp add: start_recording_defs reset_idx_def example_context_def example_target_def
        example_record_def Let_def)
  obtain c' where c': "run_sessions example_extern
           [(example_notif1, example_notif2), (example_notif2, example_notif1)] example_context
         = Inr c'"
    by (simp add: recording_session_def start_recording_defs reset_idx_def
        start_render_pass_def begin_pass_def stop_render_pass_def stop_recording_def
        end_query_def copy_query_results_def surface_sync_def submit_commands_def
        push_requests_def queue_push_def revert_extent_def clear_samplers_def
        example_context_def example_target_def example_record_def example_extern_def Let_def)
  from cmd_buffer_idx_per_session [OF a, of c1 example_extern
      "[(example_notif1, example_notif2), (example_notif2, example_notif1)]" c'] b c1 c'
  have "cmd_buffer_idx (render_targets c1 ! 0) = 1
        \<and> last_used_frame (render_targets c1 ! 0) = 5
        \<and> cmd_buffer_idx (render_targets c' ! 0) = 2
        \<and> last_used_frame (render_targets c' ! 0) = 5"
    by (simp add: example_context_def)
  with a b c1 c' show ?thesis by blast
qed

section \<open>Requests are handled in queue order\<close>

text \<open>
  In both builds the wait thread handles the requests in the order of the queue: the
  requests before a request \<open>r\<close> are handled first, then \<open>r\<close>, then those after it; a
  request pushed onto the queue is handled after all those already in it; and the
  effects of a run that ends at the closed queue are the effects of the requests, in
  queue order, also from the fresh state in which \<open>wait_thread_function\<close> starts.
\<close>

lemma requests_handled_in_queue_order:
  "wait_thread_loop nd ext (pre @ r # post) s0 =
     (case wait_thread_loop nd ext pre s0 of
        Inl e \<Rightarrow> Inl e
      | Inr s1 \<Rightarrow>
          (case handle_request nd ext r s1 of
             Inl e \<Rightarrow> Inl e
           | Inr s2 \<Rightarrow> wait_thread_loop nd ext post s2))
   \<and> wait_thread_loop nd ext (request_queue (queue_push r c)) s0 =
       (case wait_thread_loop nd ext (request_queue c) s0 of
          Inl e \<Rightarrow> Inl e
        | Inr s1 \<Rightarrow> handle_request nd ext r s1)
   \<and> (wait_thread_loop nd ext q s0 = Inr s' \<longrightarrow>
        filter is_effect (new_calls s0 s') = concat (map effects q))
   \<and> (wait_thread_function nd ext q m lfw = Inr s' \<longrightarrow>
        filter is_effect (calls s') = concat (map effects q))"
proof -
  have split: "wait_thread_loop nd ext (pre @ r # post) s0 =
     (case wait_thread_loop nd ext pre s0 of
        Inl e \<Rightarrow> Inl e
      | Inr s1 \<Rightarrow>
          (case handle_request nd ext r s1 of
             Inl e \<Rightarrow> Inl e
           | Inr s2 \<Rightarrow> wait_thread_loop nd ext post s2))"
    by (simp add: wait_thread_loop_append split: sum.splits)
  have push: "wait_thread_loop nd ext (request_queue (queue_push r c)) s0 =
       (case wait_thread_loop nd ext (request_queue c) s0 of
          Inl e \<Rightarrow> Inl e
        | Inr s1 \<Rightarrow> handle_request nd ext r s1)"
    by (simp add: queue_push_def wait_thread_loop_append split: sum.splits)
  have order: "filter is_effect (new_calls s0 s') = concat (map effects q)"
    if l: "wait_thread_loop nd ext q s0 = Inr s'"
  proof -
    from wait_thread_loop_Inr [OF l] obtain es where
      "calls s' = calls s0 @ es" "filter is_effect es = concat (map effects q)"
      by blast
    then show ?thesis by (simp add: new_calls_def)
  qed
  have fresh: "filter is_effect (calls s') = concat (map effects q)"
    if l: "wait_thread_function nd ext q m lfw = Inr s'"
  proof -
    from wait_thread_loop_Inr [OF l [unfolded wait_thread_function_def]] obtain es where
      "calls s' = [] @ es" "filter is_effect es = concat (map effects q)"
      by auto
    then show ?thesis by simp
  qed
  from split push order fresh show ?thesis by blast
qed

text \<open>
  With assertions enabled, or on a device whose waits all succeed, no request of any
  kind acts before the fences of the earlier requests and its own have been waited for
  with success. Let the thread have handled the requests \<open>pre\<close> from \<open>s0\<close>, and let the
  handler of the next request \<open>r\<close> return, \<open>r\<close> being a request that has an effect (a
  \<open>NotificationRequest\<close> with an address, a \<open>FrameDoneRequest\<close> or a
  \<open>PostSurfaceSyncRequest\<close>). Then the calls of the handler are calls \<open>ws\<close> without
  effect followed by calls \<open>es\<close> that hold the effects of \<open>r\<close>, and every fence that was
  pending in \<open>s0\<close> or came with a request of \<open>pre\<close> or with \<open>r\<close> is a fence of a
  successful wait made before \<open>es\<close>. With assertions enabled a handler whose wait fails
  does not return: the thread stops, no effect made.
\<close>

lemma effects_after_waits:
  assumes "wait_thread_loop nd ext pre s0 = Inr s1"
    and "handle_request nd ext r s1 = Inr s2"
    and "effects r \<noteq> []"
    and "\<not> nd \<or> (\<forall>cs fs. waitForFences ext cs fs)"
  shows "\<exists>ws es. calls s2 = calls s1 @ ws @ es \<and> filter is_effect ws = []
           \<and> filter is_effect es = effects r
           \<and> set (pending s0) \<union> set (request_fences (pre @ [r]))
               \<subseteq> set (waited (new_calls s0 s1 @ ws))"
proof -
  from wait_thread_loop_Inr [OF assms(1)] obtain es0 where
    es0: "calls s1 = calls s0 @ es0"
      "set (pending s0) \<union> set (request_fences pre) \<subseteq> set (pending s1) \<union> set (waited es0)"
    by blast
  have n: "new_calls s0 s1 = es0" using es0(1) by (rule new_calls_append)
  from handle_request_flushed [OF assms(2-4)] obtain ws es where
    h: "calls s2 = calls s1 @ ws @ es" "filter is_effect ws = []"
      "filter is_effect es = effects r"
      "set (pending s1) \<union> set (request_fence r) \<subseteq> set (waited ws)"
    by blast
  have "set (pending s0) \<union> set (request_fences (pre @ [r]))
      \<subseteq> set (waited (new_calls s0 s1 @ ws))"
    using es0(2) h(4) by (auto simp: n waited_append request_fences_def)
  with h(1-3) show ?thesis by blast
qed

lemma no_effect_when_assertion_fails:
  assumes "handle_request nd ext r s = Inl (e, s')"
  shows "\<not> nd \<and> e = AssertionFailure \<and> filter is_effect (new_calls s s') = []
       \<and> mem s' = mem s"
proof -
  from handle_request_Inl(4) [OF assms] obtain es where
    "calls s' = calls s @ es" "filter is_effect es = []" by blast
  then have "filter is_effect (new_calls s s') = []" by (simp add: new_calls_def)
  with handle_request_Inl(1-3) [OF assms] show ?thesis by simp
qed

text \<open>
  C2. With assertions compiled out, \<open>perform_post_surface_sync\<close> is not held back
  by a wait that fails. Let the thread,
  in any state, pop a \<open>NotificationRequest\<close> without address and then a
  \<open>PostSurfaceSyncRequest\<close>, and let the wait on the batch not return success. The
  first handler only adds the fence to the batch. In the second the lambda logs the
  failure and returns, and the handler calls \<open>perform_post_surface_sync\<close>: the calls of
  the two handlers are the failed wait, the log entry and the finalisation, none of
  them a wait that succeeded, and the fence of the \<open>NotificationRequest\<close> is still in
  the batch.
\<close>

theorem post_surface_sync_after_failed_wait:
  "n_address n0 = 0 \<and> n_address n1 = 0
     \<and> \<not> waitForFences ext (calls s) (pending s @ [fence]) \<longrightarrow>
   (\<exists>s'. wait_thread_loop True ext
            [NotificationRequest n0 n1 fence, PostSurfaceSyncRequest info] s = Inr s'
      \<and> calls s' = calls s
          @ [WaitForFences (pending s @ [fence]) False,
             LogError ''Could not wait for fences.'',
             PerformPostSurfaceSync info]
      \<and> waited (new_calls s s') = []
      \<and> pending s' = pending s @ [fence])"
  by (simp add: Let_def wait_for_fences_def call_def new_calls_def waited_def)

theorem post_surface_sync_after_failed_wait_witness:
  "n_address example_notif2 = 0
   \<and> \<not> waitForFences failing_extern (calls example_thread) (pending example_thread @ [30])
   \<and> (\<exists>s'. wait_thread_function True failing_extern
              [NotificationRequest example_notif2 example_notif2 30, PostSurfaceSyncRequest 50]
              (\<lambda>_. 0) 0 = Inr s'
        \<and> calls s' = [WaitForFences [30] False, LogError ''Could not wait for fences.'',
                      PerformPostSurfaceSync 50]
        \<and> waited (calls s') = []
        \<and> pending s' = [30])
   \<and> (\<exists>e s'. wait_thread_function False failing_extern
              [NotificationRequest example_notif2 example_notif2 30, PostSurfaceSyncRequest 50]
              (\<lambda>_. 0) 0 = Inl (e, s')
        \<and> calls s' = [WaitForFences [30] False, LogError ''Could not wait for fences.''])"
proof -
  have a: "n_address example_notif2 = 0"
    "\<not> waitForFences failing_extern (calls example_thread) (pending example_thread @ [30])"
    by (simp_all add: example_defs example_thread_def failing_extern_def)
  have t: "example_thread = \<lparr>pending = [], mem = (\<lambda>_. 0), last_frame_waited = 0, calls = []\<rparr>"
    by (simp add: example_thread_def)
  from post_surface_sync_after_failed_wait
    [of example_notif2 example_notif2 failing_extern example_thread 30 50] a
  have "\<exists>s'. wait_thread_loop True failing_extern
            [NotificationRequest example_notif2 example_notif2 30, PostSurfaceSyncRequest 50]
            example_thread = Inr s'
      \<and> calls s' = calls example_thread
          @ [WaitForFences (pending example_thread @ [30]) False,
             LogError ''Could not wait for fences.'', PerformPostSurfaceSync 50]
      \<and> waited (new_calls example_thread s') = []
      \<and> pending s' = pending example_thread @ [30]"
    by blast
  then have one: "\<exists>s'. wait_thread_function True failing_extern
              [NotificationRequest example_notif2 example_notif2 30, PostSurfaceSyncRequest 50]
              (\<lambda>_. 0) 0 = Inr s'
        \<and> calls s' = [WaitForFences [30] False, LogError ''Could not wait for fences.'',
                      PerformPostSurfaceSync 50]
        \<and> waited (calls s') = []
        \<and> pending s' = [30]"
    unfolding wait_thread_function_def t by (auto simp: new_calls_def)
  have two: "\<exists>e s'. wait_thread_function False failing_extern
              [NotificationRequest example_notif2 example_notif2 30, PostSurfaceSyncRequest 50]
              (\<lambda>_. 0) 0 = Inl (e, s')
        \<and> calls s' = [WaitForFences [30] False, LogError ''Could not wait for fences.'']"
    by (simp add: wait_thread_function_def example_defs failing_extern_def
        wait_for_fences_def Let_def)
  from a one two show ?thesis by blast
qed

section \<open>Notifications are written after the wait\<close>

text \<open>
  The handler of a \<open>NotificationRequest\<close>, in any state of the wait thread, where the
  stores do follow a successful wait: in both builds when the wait succeeds, and with
  assertions enabled when it fails.
  If neither notification has an address, the only change is that the fence joins the
  pending batch: no call is made and guest memory is untouched; and whatever requests
  the thread handles next, the fence is then still pending or among the fences of a wait
  that succeeded. If one of them has an address, the first call is the wait on every
  pending fence and the fence of this request. When that wait succeeds, the calls that
  follow are the lock of the notification mutex, the stores of the notifications that
  have an address (the first before the second), the unlock and \<open>notify_all\<close>, and the
  batch is empty. When it fails and assertions are enabled, the thread stops with an
  assertion failure, having made no store and no \<open>notify_all\<close>.
\<close>

lemma notification_written_after_wait:
  "(n_address n0 = 0 \<and> n_address n1 = 0 \<longrightarrow>
      handle_request nd ext (NotificationRequest n0 n1 fence) s
        = Inr (s\<lparr>pending := pending s @ [fence]\<rparr>)
      \<and> (\<forall>q s'. wait_thread_loop nd ext q (s\<lparr>pending := pending s @ [fence]\<rparr>) = Inr s' \<longrightarrow>
            fence \<in> set (pending s')
              \<union> set (waited (new_calls (s\<lparr>pending := pending s @ [fence]\<rparr>) s'))))
   \<and> ((n_address n0 \<noteq> 0 \<or> n_address n1 \<noteq> 0)
        \<and> waitForFences ext (calls s) (pending s @ [fence]) \<longrightarrow>
      (\<exists>s'. handle_request nd ext (NotificationRequest n0 n1 fence) s = Inr s'
         \<and> calls s' = calls s
             @ [WaitForFences (pending s @ [fence]) True, MutexLock notification_mutex]
             @ guest_writes n0 n1
             @ [MutexUnlock notification_mutex, NotifyAll]
         \<and> pending s' = []
         \<and> mem s' =
             (let m0 = (if n_address n0 \<noteq> 0 then (mem s)(n_address n0 := n_value n0)
                        else mem s)
              in if n_address n1 \<noteq> 0 then m0(n_address n1 := n_value n1) else m0)))
   \<and> ((n_address n0 \<noteq> 0 \<or> n_address n1 \<noteq> 0)
        \<and> \<not> waitForFences ext (calls s) (pending s @ [fence]) \<longrightarrow>
      (\<exists>s'. handle_request False ext (NotificationRequest n0 n1 fence) s
             = Inl (AssertionFailure, s')
         \<and> calls s' = calls s
             @ [WaitForFences (pending s @ [fence]) False,
                LogError ''Could not wait for fences.'']
         \<and> mem s' = mem s))"
proof -
  have later: "fence \<in> set (pending s')
      \<union> set (waited (new_calls (s\<lparr>pending := pending s @ [fence]\<rparr>) s'))"
    if l: "wait_thread_loop nd ext q (s\<lparr>pending := pending s @ [fence]\<rparr>) = Inr s'" for q s'
  proof -
    from wait_thread_loop_Inr [OF l] obtain es where
      es: "calls s' = calls (s\<lparr>pending := pending s @ [fence]\<rparr>) @ es"
        "set (pending (s\<lparr>pending := pending s @ [fence]\<rparr>)) \<union> set (request_fences q)
           \<subseteq> set (pending s') \<union> set (waited es)"
      by blast
    from es(1) have "new_calls (s\<lparr>pending := pending s @ [fence]\<rparr>) s' = es"
      by (rule new_calls_append)
    with es(2) show ?thesis by auto
  qed
  have none: "handle_request nd ext (NotificationRequest n0 n1 fence) s
      = Inr (s\<lparr>pending := pending s @ [fence]\<rparr>)"
    if "n_address n0 = 0 \<and> n_address n1 = 0"
    using that by (simp add: Let_def)
  have ok: "\<exists>s'. handle_request nd ext (NotificationRequest n0 n1 fence) s = Inr s'
         \<and> calls s' = calls s
             @ [WaitForFences (pending s @ [fence]) True, MutexLock notification_mutex]
             @ guest_writes n0 n1
             @ [MutexUnlock notification_mutex, NotifyAll]
         \<and> pending s' = []
         \<and> mem s' =
             (let m0 = (if n_address n0 \<noteq> 0 then (mem s)(n_address n0 := n_value n0)
                        else mem s)
              in if n_address n1 \<noteq> 0 then m0(n_address n1 := n_value n1) else m0)"
    if a: "n_address n0 \<noteq> 0 \<or> n_address n1 \<noteq> 0"
      and w: "waitForFences ext (calls s) (pending s @ [fence])"
  proof -
    let ?s2 = "s\<lparr>pending := [], calls := calls s @ [WaitForFences (pending s @ [fence]) True]\<rparr>"
    have f: "wait_for_fences nd ext (s\<lparr>pending := pending s @ [fence]\<rparr>) = Inr ?s2"
      using w by (simp add: wait_for_fences_def)
    have h: "handle_request nd ext (NotificationRequest n0 n1 fence) s
        = Inr (call NotifyAll (call (MutexUnlock notification_mutex)
            (write_notification n1 (write_notification n0
              (call (MutexLock notification_mutex) ?s2)))))"
      using a f by (simp add: Let_def)
    show ?thesis
      unfolding h by (simp add: notify_calls notify_state)
  qed
  have bad: "\<exists>s'. handle_request False ext (NotificationRequest n0 n1 fence) s
             = Inl (AssertionFailure, s')
         \<and> calls s' = calls s
             @ [WaitForFences (pending s @ [fence]) False,
                LogError ''Could not wait for fences.'']
         \<and> mem s' = mem s"
    if a: "n_address n0 \<noteq> 0 \<or> n_address n1 \<noteq> 0"
      and w: "\<not> waitForFences ext (calls s) (pending s @ [fence])"
    using a w by (simp add: Let_def wait_for_fences_def)
  from later none ok bad show ?thesis by blast
qed

text \<open>
  C3. With assertions compiled out the stores do not wait for a successful wait. Let
  a \<open>NotificationRequest\<close> have an address, and let the wait on the pending fences and
  the fence of the request not return success. The lambda logs the failure and
  returns, and the handler goes on: it locks the notification mutex, stores the value
  of each notification that has an address, unlocks and calls \<open>notify_all\<close>. Among the
  calls of the handler there is no wait that succeeded, the fences are all still in the
  batch, and guest memory holds the values.
\<close>

theorem notification_written_after_failed_wait:
  "(n_address n0 \<noteq> 0 \<or> n_address n1 \<noteq> 0)
     \<and> \<not> waitForFences ext (calls s) (pending s @ [fence]) \<longrightarrow>
   (\<exists>s'. handle_request True ext (NotificationRequest n0 n1 fence) s = Inr s'
      \<and> calls s' = calls s
          @ [WaitForFences (pending s @ [fence]) False,
             LogError ''Could not wait for fences.'',
             MutexLock notification_mutex]
          @ guest_writes n0 n1
          @ [MutexUnlock notification_mutex, NotifyAll]
      \<and> waited (new_calls s s') = []
      \<and> pending s' = pending s @ [fence]
      \<and> mem s' =
          (let m0 = (if n_address n0 \<noteq> 0 then (mem s)(n_address n0 := n_value n0)
                     else mem s)
           in if n_address n1 \<noteq> 0 then m0(n_address n1 := n_value n1) else m0))"
proof -
  have "\<exists>s'. handle_request True ext (NotificationRequest n0 n1 fence) s = Inr s'
      \<and> calls s' = calls s
          @ [WaitForFences (pending s @ [fence]) False,
             LogError ''Could not wait for fences.'',
             MutexLock notification_mutex]
          @ guest_writes n0 n1
          @ [MutexUnlock notification_mutex, NotifyAll]
      \<and> waited (new_calls s s') = []
      \<and> pending s' = pending s @ [fence]
      \<and> mem s' =
          (let m0 = (if n_address n0 \<noteq> 0 then (mem s)(n_address n0 := n_value n0)
                     else mem s)
           in if n_address n1 \<noteq> 0 then m0(n_address n1 := n_value n1) else m0)"
    if a: "n_address n0 \<noteq> 0 \<or> n_address n1 \<noteq> 0"
      and w: "\<not> waitForFences ext (calls s) (pending s @ [fence])"
  proof -
    let ?s2 = "s\<lparr>pending := pending s @ [fence],
      calls := calls s @ [WaitForFences (pending s @ [fence]) False,
                          LogError ''Could not wait for fences.'']\<rparr>"
    have f: "wait_for_fences True ext (s\<lparr>pending := pending s @ [fence]\<rparr>) = Inr ?s2"
      using w by (simp add: wait_for_fences_def)
    have h: "handle_request True ext (NotificationRequest n0 n1 fence) s
        = Inr (call NotifyAll (call (MutexUnlock notification_mutex)
            (write_notification n1 (write_notification n0
              (call (MutexLock notification_mutex) ?s2)))))"
      using a f by (simp add: Let_def)
    have g: "waited (guest_writes n0 n1) = []"
      by (simp add: guest_writes_def waited_def)
    show ?thesis
      unfolding h
      by (simp add: notify_calls notify_state new_calls_def waited_append g)
        (simp add: waited_def guest_writes_def)
  qed
  then show ?thesis by blast
qed

theorem notification_written_after_failed_wait_witness:
  "n_address example_notif1 \<noteq> 0
   \<and> \<not> waitForFences failing_extern (calls (example_thread\<lparr>pending := [30]\<rparr>)) [30, 31]
   \<and> mem (example_thread\<lparr>pending := [30]\<rparr>) 0x1000 = 0
   \<and> (\<exists>s'. handle_request True failing_extern
             (NotificationRequest example_notif1 example_notif2 31)
             (example_thread\<lparr>pending := [30]\<rparr>) = Inr s'
         \<and> calls s' = [WaitForFences [30, 31] False, LogError ''Could not wait for fences.'',
              MutexLock notification_mutex, GuestWrite 0x1000 1,
              MutexUnlock notification_mutex, NotifyAll]
         \<and> waited (calls s') = []
         \<and> pending s' = [30, 31] \<and> mem s' 0x1000 = 1)"
proof -
  let ?s = "example_thread\<lparr>pending := [30]\<rparr>"
  have a: "n_address example_notif1 \<noteq> 0"
    "\<not> waitForFences failing_extern (calls ?s) [30, 31]"
    "mem ?s 0x1000 = 0"
    by (simp_all add: example_defs example_thread_def failing_extern_def)
  have c: "calls ?s = []" "pending ?s @ [31] = [30, 31]"
    by (simp_all add: example_thread_def)
  from notification_written_after_failed_wait
    [of example_notif1 example_notif2 failing_extern ?s 31] a(1,2)
  have "\<exists>s'. handle_request True failing_extern
             (NotificationRequest example_notif1 example_notif2 31) ?s = Inr s'
         \<and> calls s' = [WaitForFences [30, 31] False, LogError ''Could not wait for fences.'',
              MutexLock notification_mutex, GuestWrite 0x1000 1,
              MutexUnlock notification_mutex, NotifyAll]
         \<and> waited (calls s') = []
         \<and> pending s' = [30, 31] \<and> mem s' 0x1000 = 1"
    by (auto simp: guest_writes_def example_thread_def example_notif1_def example_notif2_def
        new_calls_def)
  with a show ?thesis by blast
qed

section \<open>Doubling the extent for multisampling\<close>

text \<open>
  The extent of the bound target over a scene. Let \<open>set_context\<close> return and bind the
  target \<open>p\<close>, and let the \<open>stop_recording\<close> that follows return. If the target is in a
  multisample mode and the colour surface has no downscale (or has a null address),
  \<open>set_context\<close> stores twice the width and twice the height, in the arithmetic of the
  field, and \<open>stop_recording\<close> stores half of that; otherwise neither changes the
  extent. The extents of the other targets are unchanged in every case.
\<close>

lemma extent_after_scene:
  fixes c :: "'w::len VKContext"
  assumes "set_context ext rt c = Inr c1"
    and "stop_recording ext' notif1 notif2 c1 = Inr c2"
    and "render_target c1 = Some p"
  shows "width (render_targets c1 ! p)
       = (if multisample_mode (render_targets c ! p) \<noteq> 0
             \<and> \<not> (downscale (color_surface (record_state c))
                  \<and> data (color_surface (record_state c)) \<noteq> 0)
          then width (render_targets c ! p) * 2 else width (render_targets c ! p))"
    and "height (render_targets c1 ! p)
       = (if multisample_mode (render_targets c ! p) \<noteq> 0
             \<and> \<not> (downscale (color_surface (record_state c))
                  \<and> data (color_surface (record_state c)) \<noteq> 0)
          then height (render_targets c ! p) * 2 else height (render_targets c ! p))"
    and "width (render_targets c2 ! p)
       = (if multisample_mode (render_targets c ! p) \<noteq> 0
             \<and> \<not> (downscale (color_surface (record_state c))
                  \<and> data (color_surface (record_state c)) \<noteq> 0)
          then width (render_targets c ! p) * 2 div 2 else width (render_targets c ! p))"
    and "height (render_targets c2 ! p)
       = (if multisample_mode (render_targets c ! p) \<noteq> 0
             \<and> \<not> (downscale (color_surface (record_state c))
                  \<and> data (color_surface (record_state c)) \<noteq> 0)
          then height (render_targets c ! p) * 2 div 2 else height (render_targets c ! p))"
    and "\<And>q. q \<noteq> p \<Longrightarrow> width (render_targets c2 ! q) = width (render_targets c ! q)
                      \<and> height (render_targets c2 ! q) = height (render_targets c ! q)"
proof -
  from assms(1) obtain p' es where
    b: "render_target c1 = Some p'" and
    rec: "is_recording c1" and
    len: "p' < length (render_targets c)"
      "length (render_targets c1) = length (render_targets c)" and
    ms: "multisample_mode (render_targets c1 ! p') = multisample_mode (render_targets c ! p')" and
    w: "width (render_targets c1 ! p')
       = (if multisample_mode (render_targets c ! p') \<noteq> 0
             \<and> \<not> (downscale (color_surface (record_state c))
                  \<and> data (color_surface (record_state c)) \<noteq> 0)
          then width (render_targets c ! p') * 2 else width (render_targets c ! p'))"
     "height (render_targets c1 ! p')
       = (if multisample_mode (render_targets c ! p') \<noteq> 0
             \<and> \<not> (downscale (color_surface (record_state c))
                  \<and> data (color_surface (record_state c)) \<noteq> 0)
          then height (render_targets c ! p') * 2 else height (render_targets c ! p'))" and
    oth: "\<And>q. q \<noteq> p' \<Longrightarrow> width (render_targets c1 ! q) = width (render_targets c ! q)
                  \<and> height (render_targets c1 ! q) = height (render_targets c ! q)" and
    d: "downscale (color_surface (record_state c1))
       \<longleftrightarrow> downscale (color_surface (record_state c))
           \<and> data (color_surface (record_state c)) \<noteq> 0"
    by (rule set_context_cases) blast
  from b assms(3) have p': "p' = p" by simp
  from assms(2) rec obtain p'' si es' where
    b': "render_target c1 = Some p''" and
    r: "render_targets c2 = (render_targets c1)[p'' :=
         (let rt = render_targets c1 ! p'';
              rt1 = rt\<lparr>fence_idx :=
                (if fence_idx rt + 1 = length (fences rt) then 0 else fence_idx rt + 1)\<rparr>
          in if multisample_mode rt \<noteq> 0 \<and> \<not> downscale (color_surface (record_state c1))
             then rt1\<lparr>width := width rt div 2, height := height rt div 2\<rparr>
             else rt1)]"
    by (rule stop_recording_cases)
  from b' assms(3) have p'': "p'' = p" by simp
  have lp: "p < length (render_targets c1)" using len by (simp add: p')
  from w show "width (render_targets c1 ! p)
       = (if multisample_mode (render_targets c ! p) \<noteq> 0
             \<and> \<not> (downscale (color_surface (record_state c))
                  \<and> data (color_surface (record_state c)) \<noteq> 0)
          then width (render_targets c ! p) * 2 else width (render_targets c ! p))"
    and "height (render_targets c1 ! p)
       = (if multisample_mode (render_targets c ! p) \<noteq> 0
             \<and> \<not> (downscale (color_surface (record_state c))
                  \<and> data (color_surface (record_state c)) \<noteq> 0)
          then height (render_targets c ! p) * 2 else height (render_targets c ! p))"
    by (simp_all only: p')
  from lp ms w d show "width (render_targets c2 ! p)
       = (if multisample_mode (render_targets c ! p) \<noteq> 0
             \<and> \<not> (downscale (color_surface (record_state c))
                  \<and> data (color_surface (record_state c)) \<noteq> 0)
          then width (render_targets c ! p) * 2 div 2 else width (render_targets c ! p))"
    by (auto simp: r p' p'' Let_def)
  from lp ms w d show "height (render_targets c2 ! p)
       = (if multisample_mode (render_targets c ! p) \<noteq> 0
             \<and> \<not> (downscale (color_surface (record_state c))
                  \<and> data (color_surface (record_state c)) \<noteq> 0)
          then height (render_targets c ! p) * 2 div 2 else height (render_targets c ! p))"
    by (auto simp: r p' p'' Let_def)
  show "width (render_targets c2 ! q) = width (render_targets c ! q)
      \<and> height (render_targets c2 ! q) = height (render_targets c ! q)" if "q \<noteq> p" for q
    using that oth [of q] by (simp add: r p' p'')
qed

text \<open>
  Where twice the width and twice the height still fit the field, the width and height
  of \<open>p\<close> after \<open>stop_recording\<close> are those before \<open>set_context\<close>; when the extent is not
  doubled they are unchanged whatever their value.
\<close>

lemma extent_restored_unless_overflow:
  fixes c :: "'w::len VKContext"
  assumes "set_context ext rt c = Inr c1"
    and "stop_recording ext' notif1 notif2 c1 = Inr c2"
    and "render_target c1 = Some p"
    and "multisample_mode (render_targets c ! p) \<noteq> 0
           \<and> \<not> (downscale (color_surface (record_state c))
                \<and> data (color_surface (record_state c)) \<noteq> 0)
         \<longrightarrow> 2 * unat (width (render_targets c ! p)) < 2 ^ LENGTH('w)
           \<and> 2 * unat (height (render_targets c ! p)) < 2 ^ LENGTH('w)"
  shows "width (render_targets c2 ! p) = width (render_targets c ! p)
       \<and> height (render_targets c2 ! p) = height (render_targets c ! p)
       \<and> (\<forall>q. q \<noteq> p \<longrightarrow> width (render_targets c2 ! q) = width (render_targets c ! q)
                      \<and> height (render_targets c2 ! q) = height (render_targets c ! q))"
proof -
  let ?doubled = "multisample_mode (render_targets c ! p) \<noteq> 0
           \<and> \<not> (downscale (color_surface (record_state c))
                \<and> data (color_surface (record_state c)) \<noteq> 0)"
  note e = extent_after_scene [OF assms(1-3)]
  have target: "width (render_targets c2 ! p) = width (render_targets c ! p)
      \<and> height (render_targets c2 ! p) = height (render_targets c ! p)"
  proof (cases ?doubled)
    case True
    with assms(4) have fit: "2 * unat (width (render_targets c ! p)) < 2 ^ LENGTH('w)"
      "2 * unat (height (render_targets c ! p)) < 2 ^ LENGTH('w)"
      by blast+
    from True e(3,4) show ?thesis
      by (simp add: double_then_halve [OF fit(1)] double_then_halve [OF fit(2)])
  next
    case False
    with e(3,4) show ?thesis by auto
  qed
  from target e(5) show ?thesis by blast
qed

lemma extent_restored_example:
  "\<exists>c1 c2. set_context example_extern None example_msaa = Inr c1
     \<and> stop_recording example_extern example_notif1 example_notif2 c1 = Inr c2
     \<and> render_target c1 = Some 0
     \<and> width (render_targets c1 ! 0) = 1920 \<and> height (render_targets c1 ! 0) = 1088
     \<and> width (render_targets c2 ! 0) = 960 \<and> height (render_targets c2 ! 0) = 544"
proof -
  have a: "multisample_mode (render_targets example_msaa ! 0) \<noteq> 0"
    "\<not> downscale (color_surface (record_state example_msaa))"
    "2 * unat (width (render_targets example_msaa ! 0)) < 2 ^ LENGTH(16)"
    "2 * unat (height (render_targets example_msaa ! 0)) < 2 ^ LENGTH(16)"
    by (simp_all add: example_defs example_msaa_def)
  have "\<exists>c1. set_context example_extern None example_msaa = Inr c1
      \<and> render_target c1 = Some 0
      \<and> width (render_targets c1 ! 0) = 1920 \<and> height (render_targets c1 ! 0) = 1088
      \<and> (\<exists>c2. stop_recording example_extern example_notif1 example_notif2 c1 = Inr c2)"
    by (simp add: set_context_defs example_defs example_msaa_def Let_def)
  then obtain c1 c2 where
    s: "set_context example_extern None example_msaa = Inr c1" and
    b: "render_target c1 = Some 0" and
    w: "width (render_targets c1 ! 0) = 1920" "height (render_targets c1 ! 0) = 1088" and
    t: "stop_recording example_extern example_notif1 example_notif2 c1 = Inr c2"
    by blast
  from extent_restored_unless_overflow [OF s t b] a(3,4)
  have "width (render_targets c2 ! 0) = 960 \<and> height (render_targets c2 ! 0) = 544"
    by (simp add: example_defs example_msaa_def)
  with s t b w show ?thesis by blast
qed

text \<open>
  C4. The doubling is not reversible where it overflows the field. Let \<open>set_context\<close>
  return and bind the target \<open>p\<close>, a target in a multisample mode while the colour
  surface has no downscale (or has a null address), and let the \<open>stop_recording\<close> that
  follows return. At any width \<open>'w\<close> of the field: \<open>set_context\<close> stores twice the width
  modulo \<open>2 ^ 'w\<close> and \<open>stop_recording\<close> stores half of that, so when twice the width
  does not fit the field, the width after \<open>stop_recording\<close> is not the width before
  \<open>set_context\<close>; and the same holds of the height.
\<close>

theorem extent_not_restored_on_overflow:
  fixes c :: "'w::len VKContext"
  assumes "set_context ext rt c = Inr c1"
    and "stop_recording ext' notif1 notif2 c1 = Inr c2"
    and "render_target c1 = Some p"
    and "multisample_mode (render_targets c ! p) \<noteq> 0"
    and "\<not> (downscale (color_surface (record_state c))
            \<and> data (color_surface (record_state c)) \<noteq> 0)"
  shows "width (render_targets c1 ! p) = width (render_targets c ! p) * 2
       \<and> width (render_targets c2 ! p) = width (render_targets c ! p) * 2 div 2
       \<and> height (render_targets c1 ! p) = height (render_targets c ! p) * 2
       \<and> height (render_targets c2 ! p) = height (render_targets c ! p) * 2 div 2
       \<and> (2 ^ LENGTH('w) \<le> 2 * unat (width (render_targets c ! p)) \<longrightarrow>
            width (render_targets c2 ! p) \<noteq> width (render_targets c ! p))
       \<and> (2 ^ LENGTH('w) \<le> 2 * unat (height (render_targets c ! p)) \<longrightarrow>
            height (render_targets c2 ! p) \<noteq> height (render_targets c ! p))"
proof -
  note e = extent_after_scene [OF assms(1-3)]
  from assms(4,5) e(1-4) have
    w: "width (render_targets c1 ! p) = width (render_targets c ! p) * 2"
       "width (render_targets c2 ! p) = width (render_targets c ! p) * 2 div 2" and
    h: "height (render_targets c1 ! p) = height (render_targets c ! p) * 2"
       "height (render_targets c2 ! p) = height (render_targets c ! p) * 2 div 2"
    by simp_all
  have "width (render_targets c2 ! p) \<noteq> width (render_targets c ! p)"
    if "2 ^ LENGTH('w) \<le> 2 * unat (width (render_targets c ! p))"
    unfolding w(2) using that by (rule double_then_halve_wraps)
  moreover have "height (render_targets c2 ! p) \<noteq> height (render_targets c ! p)"
    if "2 ^ LENGTH('w) \<le> 2 * unat (height (render_targets c ! p))"
    unfolding h(2) using that by (rule double_then_halve_wraps)
  ultimately show ?thesis using w h by blast
qed

theorem extent_not_restored_on_overflow_witness:
  "(\<exists>c1 c2. set_context example_extern None (overflow_context :: 16 VKContext) = Inr c1
      \<and> stop_recording example_extern example_notif1 example_notif2 c1 = Inr c2
      \<and> render_target c1 = Some 0
      \<and> multisample_mode (render_targets (overflow_context :: 16 VKContext) ! 0) = 1
      \<and> \<not> downscale (color_surface (record_state (overflow_context :: 16 VKContext)))
      \<and> width (render_targets (overflow_context :: 16 VKContext) ! 0) = 32768
      \<and> width (render_targets c1 ! 0) = 0
      \<and> width (render_targets c2 ! 0) = 0)
   \<and> (\<exists>c1 c2. set_context example_extern None (overflow_context :: 32 VKContext) = Inr c1
      \<and> stop_recording example_extern example_notif1 example_notif2 c1 = Inr c2
      \<and> render_target c1 = Some 0
      \<and> multisample_mode (render_targets (overflow_context :: 32 VKContext) ! 0) = 1
      \<and> \<not> downscale (color_surface (record_state (overflow_context :: 32 VKContext)))
      \<and> width (render_targets (overflow_context :: 32 VKContext) ! 0) = 2147483648
      \<and> width (render_targets c1 ! 0) = 0
      \<and> width (render_targets c2 ! 0) = 0)"
proof -
  have a16: "multisample_mode (render_targets (overflow_context :: 16 VKContext) ! 0) = 1"
    "\<not> downscale (color_surface (record_state (overflow_context :: 16 VKContext)))"
    "width (render_targets (overflow_context :: 16 VKContext) ! 0) = 32768"
    by (simp_all add: overflow_context_def overflow_target_def example_record_def)
  have a32: "multisample_mode (render_targets (overflow_context :: 32 VKContext) ! 0) = 1"
    "\<not> downscale (color_surface (record_state (overflow_context :: 32 VKContext)))"
    "width (render_targets (overflow_context :: 32 VKContext) ! 0) = 2147483648"
    by (simp_all add: overflow_context_def overflow_target_def example_record_def)
  have "\<exists>c1. set_context example_extern None (overflow_context :: 16 VKContext) = Inr c1
      \<and> render_target c1 = Some 0
      \<and> (\<exists>c2. stop_recording example_extern example_notif1 example_notif2 c1 = Inr c2)"
    by (simp add: set_context_defs example_defs overflow_context_def overflow_target_def
        Let_def)
  then obtain c1 c2 where
    s: "set_context example_extern None (overflow_context :: 16 VKContext) = Inr c1" and
    b: "render_target c1 = Some 0" and
    t: "stop_recording example_extern example_notif1 example_notif2 c1 = Inr c2"
    by blast
  from extent_not_restored_on_overflow [OF s t b] a16
  have "width (render_targets c1 ! 0) = 0 \<and> width (render_targets c2 ! 0) = 0"
    by simp
  with s t b a16 have one:
    "\<exists>c1 c2. set_context example_extern None (overflow_context :: 16 VKContext) = Inr c1
      \<and> stop_recording example_extern example_notif1 example_notif2 c1 = Inr c2
      \<and> render_target c1 = Some 0
      \<and> multisample_mode (render_targets (overflow_context :: 16 VKContext) ! 0) = 1
      \<and> \<not> downscale (color_surface (record_state (overflow_context :: 16 VKContext)))
      \<and> width (render_targets (overflow_context :: 16 VKContext) ! 0) = 32768
      \<and> width (render_targets c1 ! 0) = 0
      \<and> width (render_targets c2 ! 0) = 0"
    by blast
  have "\<exists>c1. set_context example_extern None (overflow_context :: 32 VKContext) = Inr c1
      \<and> render_target c1 = Some 0
      \<and> (\<exists>c2. stop_recording example_extern example_notif1 example_notif2 c1 = Inr c2)"
    by (simp add: set_context_defs example_defs overflow_context_def overflow_target_def
        Let_def)
  then obtain d1 d2 where
    s': "set_context example_extern None (overflow_context :: 32 VKContext) = Inr d1" and
    b': "render_target d1 = Some 0" and
    t': "stop_recording example_extern example_notif1 example_notif2 d1 = Inr d2"
    by blast
  from extent_not_restored_on_overflow [OF s' t' b'] a32
  have "width (render_targets d1 ! 0) = 0 \<and> width (render_targets d2 ! 0) = 0"
    by simp
  with s' t' b' a32 have two:
    "\<exists>c1 c2. set_context example_extern None (overflow_context :: 32 VKContext) = Inr c1
      \<and> stop_recording example_extern example_notif1 example_notif2 c1 = Inr c2
      \<and> render_target c1 = Some 0
      \<and> multisample_mode (render_targets (overflow_context :: 32 VKContext) ! 0) = 1
      \<and> \<not> downscale (color_surface (record_state (overflow_context :: 32 VKContext)))
      \<and> width (render_targets (overflow_context :: 32 VKContext) ! 0) = 2147483648
      \<and> width (render_targets c1 ! 0) = 0
      \<and> width (render_targets c2 ! 0) = 0"
    by blast
  from one two show ?thesis by blast
qed

section \<open>Growing the pools\<close>

text \<open>
  C5. Let \<open>start_recording\<close> start a session on the bound target, and let every fence of
  the target's pool be a handle the device gave out before. If the cursor (after the reset
  for a new frame) equals the number of command buffers of the current frame, then the
  frame's two command-buffer vectors and the fence pool each grow by one element; the new
  fence is inserted at \<open>fence_idx\<close>, which stays as it is, so it is the fence at
  \<open>fence_idx\<close>; it is none of the fences the pool held; and the next \<open>stop_recording\<close>
  submits with it. Otherwise the three pools are unchanged. As a scenario: on a target
  whose current frame has as many command buffers as the run has sessions (2 for 2
  scenes), starting from cursor 0, the run leaves the pools as they were, and the
  \<open>start_recording\<close> of the next scene grows each of them by one.
\<close>

theorem start_recording_grows_pools:
  assumes "\<not> is_recording c" and "render_target c = Some p"
    and "\<forall>f \<in> set (fences (render_targets c ! p)). f < next_handle c"
  shows "(start_recording c = Inr c' \<longrightarrow>
           (if cmd_buffer_idx (reset_idx (frame_timestamp c) (render_targets c ! p))
                 = length (cmd_buffers (render_targets c ! p) ! current_frame_idx c)
            then length (cmd_buffers (render_targets c' ! p) ! current_frame_idx c)
                   = length (cmd_buffers (render_targets c ! p) ! current_frame_idx c) + 1
               \<and> length (pre_cmd_buffers (render_targets c' ! p) ! current_frame_idx c)
                   = length (pre_cmd_buffers (render_targets c ! p) ! current_frame_idx c) + 1
               \<and> length (fences (render_targets c' ! p))
                   = length (fences (render_targets c ! p)) + 1
               \<and> fences (render_targets c' ! p)
                   = insert_at (fence_idx (render_targets c ! p)) (next_handle c + 2)
                       (fences (render_targets c ! p))
               \<and> fence_idx (render_targets c' ! p) = fence_idx (render_targets c ! p)
               \<and> fences (render_targets c' ! p) ! fence_idx (render_targets c' ! p)
                   = next_handle c + 2
               \<and> next_handle c + 2 \<notin> set (fences (render_targets c ! p))
               \<and> (\<forall>ext n1 n2 c''. stop_recording ext n1 n2 c' = Inr c'' \<longrightarrow>
                     List.map_filter submission (new_events c' c'')
                       = [([prerender_cmd c', render_cmd c'], next_handle c + 2)])
            else cmd_buffers (render_targets c' ! p) = cmd_buffers (render_targets c ! p)
               \<and> pre_cmd_buffers (render_targets c' ! p) = pre_cmd_buffers (render_targets c ! p)
               \<and> fences (render_targets c' ! p) = fences (render_targets c ! p)))
       \<and> (cmd_buffer_idx (reset_idx (frame_timestamp c) (render_targets c ! p)) = 0
           \<and> length (cmd_buffers (render_targets c ! p) ! current_frame_idx c) = length ns
           \<and> run_sessions ext ns c = Inr c2 \<and> start_recording c2 = Inr c3 \<longrightarrow>
             cmd_buffers (render_targets c2 ! p) = cmd_buffers (render_targets c ! p)
           \<and> pre_cmd_buffers (render_targets c2 ! p) = pre_cmd_buffers (render_targets c ! p)
           \<and> fences (render_targets c2 ! p) = fences (render_targets c ! p)
           \<and> length (cmd_buffers (render_targets c3 ! p) ! current_frame_idx c)
               = length ns + 1
           \<and> length (pre_cmd_buffers (render_targets c3 ! p) ! current_frame_idx c)
               = length (pre_cmd_buffers (render_targets c ! p) ! current_frame_idx c) + 1
           \<and> length (fences (render_targets c3 ! p))
               = length (fences (render_targets c ! p)) + 1)"
proof -
  let ?rt = "render_targets c ! p"
  let ?i = "current_frame_idx c"
  let ?grow = "cmd_buffer_idx (reset_idx (frame_timestamp c) ?rt) = length (cmd_buffers ?rt ! ?i)"
  have first: "if ?grow
      then length (cmd_buffers (render_targets c' ! p) ! ?i) = length (cmd_buffers ?rt ! ?i) + 1
         \<and> length (pre_cmd_buffers (render_targets c' ! p) ! ?i)
             = length (pre_cmd_buffers ?rt ! ?i) + 1
         \<and> length (fences (render_targets c' ! p)) = length (fences ?rt) + 1
         \<and> fences (render_targets c' ! p)
             = insert_at (fence_idx ?rt) (next_handle c + 2) (fences ?rt)
         \<and> fence_idx (render_targets c' ! p) = fence_idx ?rt
         \<and> fences (render_targets c' ! p) ! fence_idx (render_targets c' ! p) = next_handle c + 2
         \<and> next_handle c + 2 \<notin> set (fences ?rt)
         \<and> (\<forall>ext n1 n2 c''. stop_recording ext n1 n2 c' = Inr c'' \<longrightarrow>
               List.map_filter submission (new_events c' c'')
                 = [([prerender_cmd c', render_cmd c'], next_handle c + 2)])
      else cmd_buffers (render_targets c' ! p) = cmd_buffers ?rt
         \<and> pre_cmd_buffers (render_targets c' ! p) = pre_cmd_buffers ?rt
         \<and> fences (render_targets c' ! p) = fences ?rt"
    if s: "start_recording c = Inr c'" for c'
  proof (cases ?grow)
    case False
    with start_recording_pools(1,2,3) [OF s assms(1,2)] show ?thesis by simp
  next
    case True
    note pools = start_recording_pools [OF s assms(1,2)]
    have le: "fence_idx ?rt \<le> length (fences ?rt)" using pools(6) True by simp
    have fs: "fences (render_targets c' ! p)
        = insert_at (fence_idx ?rt) (next_handle c + 2) (fences ?rt)"
      using pools(1) True by simp
    have fi: "fence_idx (render_targets c' ! p) = fence_idx ?rt"
      by (rule start_recording_extent(4) [OF s])
    have new: "fences (render_targets c' ! p) ! fence_idx (render_targets c' ! p)
        = next_handle c + 2"
      using le by (simp add: fs fi nth_insert_at)
    have fresh: "next_handle c + 2 \<notin> set (fences ?rt)"
      using assms(3) by auto
    have rec: "is_recording c'" "render_target c' = Some p"
      using start_recording_started(2) [OF s assms(1,2)] start_recording_frame(2) [OF s] assms(2)
      by simp_all
    have sub: "List.map_filter submission (new_events c' c'')
        = [([prerender_cmd c', render_cmd c'], next_handle c + 2)]"
      if t: "stop_recording ext n1 n2 c' = Inr c''" for ext n1 n2 c''
      using stop_recording_new_submission [OF rec(1) t rec(2)] new by simp
    from True pools(2,3,4,5) fs fi new fresh sub show ?thesis
      by (simp add: length_insert_at)
  qed
  have second: "cmd_buffers (render_targets c2 ! p) = cmd_buffers ?rt
         \<and> pre_cmd_buffers (render_targets c2 ! p) = pre_cmd_buffers ?rt
         \<and> fences (render_targets c2 ! p) = fences ?rt
         \<and> length (cmd_buffers (render_targets c3 ! p) ! ?i) = length ns + 1
         \<and> length (pre_cmd_buffers (render_targets c3 ! p) ! ?i)
             = length (pre_cmd_buffers ?rt ! ?i) + 1
         \<and> length (fences (render_targets c3 ! p)) = length (fences ?rt) + 1"
    if z: "cmd_buffer_idx (reset_idx (frame_timestamp c) ?rt) = 0"
      and n: "length (cmd_buffers ?rt ! ?i) = length ns"
      and r: "run_sessions ext ns c = Inr c2" and s: "start_recording c2 = Inr c3"
  proof -
    from z n have "cmd_buffer_idx (reset_idx (frame_timestamp c) ?rt) + length ns
        \<le> length (cmd_buffers ?rt ! ?i)"
      by simp
    from run_sessions_no_growth [OF r assms(1,2) this] z have k:
      "cmd_buffers (render_targets c2 ! p) = cmd_buffers ?rt"
      "pre_cmd_buffers (render_targets c2 ! p) = pre_cmd_buffers ?rt"
      "fences (render_targets c2 ! p) = fences ?rt"
      "\<not> is_recording c2" "render_target c2 = Some p"
      "current_frame_idx c2 = ?i"
      "frame_timestamp c2 = frame_timestamp c"
      "cmd_buffer_idx (reset_idx (frame_timestamp c) (render_targets c2 ! p)) = length ns"
      by simp_all
    note pools = start_recording_pools [OF s k(4,5), unfolded k]
    from pools(1,2,3,4,5) k(1,2,3) n show ?thesis
      by (simp add: length_insert_at)
  qed
  from first second show ?thesis by blast
qed

theorem start_recording_grows_pools_witness:
  "\<not> is_recording example_context \<and> render_target example_context = Some 0
   \<and> fences (render_targets example_context ! 0) = [30, 31]
   \<and> next_handle example_context = 100
   \<and> cmd_buffer_idx (reset_idx (frame_timestamp example_context)
        (render_targets example_context ! 0)) = 0
   \<and> length (cmd_buffers (render_targets example_context ! 0)
        ! current_frame_idx example_context) = 2
   \<and> (\<exists>c2 c3 c4.
         run_sessions example_extern
           [(example_notif1, example_notif2), (example_notif2, example_notif1)] example_context
           = Inr c2
       \<and> start_recording c2 = Inr c3
       \<and> stop_recording example_extern example_notif1 example_notif2 c3 = Inr c4
       \<and> cmd_buffers (render_targets c2 ! 0) = [[10, 11], [12, 13]]
       \<and> pre_cmd_buffers (render_targets c2 ! 0) = [[20, 21], [22, 23]]
       \<and> fences (render_targets c2 ! 0) = [30, 31]
       \<and> length (cmd_buffers (render_targets c3 ! 0) ! 0) = 3
       \<and> length (pre_cmd_buffers (render_targets c3 ! 0) ! 0) = 3
       \<and> fences (render_targets c3 ! 0) = [104, 30, 31]
       \<and> fence_idx (render_targets c3 ! 0) = 0
       \<and> List.map_filter submission (new_events c3 c4) = [([Some 103, Some 102], 104)])"
proof -
  let ?ns = "[(example_notif1, example_notif2), (example_notif2, example_notif1)]"
  have a: "\<not> is_recording example_context" "render_target example_context = Some 0"
    "\<forall>f \<in> set (fences (render_targets example_context ! 0)). f < next_handle example_context"
    by (simp_all add: example_defs)
  have z: "cmd_buffer_idx (reset_idx (frame_timestamp example_context)
        (render_targets example_context ! 0)) = 0"
    "length (cmd_buffers (render_targets example_context ! 0)
        ! current_frame_idx example_context) = 2"
    by (simp_all add: example_defs reset_idx_def)
  have "\<exists>c2. run_sessions example_extern ?ns example_context = Inr c2
      \<and> \<not> is_recording c2 \<and> render_target c2 = Some 0 \<and> next_handle c2 = 102
      \<and> frame_timestamp c2 = 5 \<and> current_frame_idx c2 = 0
      \<and> render_targets c2 = [example_target\<lparr>cmd_buffer_idx := 2, last_used_frame := 5\<rparr>]
      \<and> (\<exists>c3. start_recording c2 = Inr c3
            \<and> render_cmd c3 = Some 102 \<and> prerender_cmd c3 = Some 103
            \<and> (\<exists>c4. stop_recording example_extern example_notif1 example_notif2 c3 = Inr c4))"
    by (simp add: session_defs example_defs Let_def)
  then obtain c2 c3 c4 where
    r: "run_sessions example_extern ?ns example_context = Inr c2" and
    k: "\<not> is_recording c2" "render_target c2 = Some 0" and
    h: "next_handle c2 = 102" "frame_timestamp c2 = 5" "current_frame_idx c2 = 0"
      "render_targets c2 = [example_target\<lparr>cmd_buffer_idx := 2, last_used_frame := 5\<rparr>]" and
    s: "start_recording c2 = Inr c3" and
    b: "render_cmd c3 = Some 102" "prerender_cmd c3 = Some 103" and
    t: "stop_recording example_extern example_notif1 example_notif2 c3 = Inr c4"
    by blast
  have f: "\<forall>f \<in> set (fences (render_targets c2 ! 0)). f < next_handle c2"
    by (simp add: h example_defs)
  from start_recording_grows_pools [OF a, of c3 ?ns example_extern c2 c3] z r s
  have one: "cmd_buffers (render_targets c2 ! 0) = [[10, 11], [12, 13]]
       \<and> pre_cmd_buffers (render_targets c2 ! 0) = [[20, 21], [22, 23]]
       \<and> fences (render_targets c2 ! 0) = [30, 31]
       \<and> length (cmd_buffers (render_targets c3 ! 0) ! 0) = 3
       \<and> length (pre_cmd_buffers (render_targets c3 ! 0) ! 0) = 3"
    by (simp add: example_defs)
  from start_recording_grows_pools [OF k f, of c3 "[]" example_extern c2 c3] s t
  have two: "fences (render_targets c3 ! 0) = [104, 30, 31]
       \<and> fence_idx (render_targets c3 ! 0) = 0
       \<and> List.map_filter submission (new_events c3 c4) = [([Some 103, Some 102], 104)]"
    by (simp add: h b reset_idx_def insert_at_def example_target_def)
  have e: "fences (render_targets example_context ! 0) = [30, 31]"
    "next_handle example_context = 100"
    by (simp_all add: example_defs)
  from a(1,2) e z r s t one two show ?thesis by blast
qed

section \<open>Protocol violations\<close>

text \<open>
  C6. A call out of order reports an error and changes nothing else: the result is the
  context it was given with one \<open>LogError\<close> more in its trace. The cases are
  \<open>start_recording\<close> while recording, \<open>start_recording\<close> with no render target bound,
  \<open>start_render_pass\<close> inside a render pass, \<open>stop_render_pass\<close> outside of one and
  \<open>stop_recording\<close> while not recording.
\<close>

theorem protocol_violations_are_noops:
  fixes c1 c2 c3 c4 c5 :: "'w::len VKContext"
  shows
  "(is_recording c1 \<longrightarrow>
      start_recording c1 = Inr (c1\<lparr>trace := trace c1 @
        [LogError ''Attempt to start recording while already recording'']\<rparr>))
   \<and> (\<not> is_recording c2 \<and> render_target c2 = None \<longrightarrow>
      start_recording c2 = Inr (c2\<lparr>trace := trace c2 @
        [LogError ''Recording started without a set command buffer'']\<rparr>))
   \<and> (in_renderpass c3 \<longrightarrow>
      start_render_pass c3 = Inr (c3\<lparr>trace := trace c3 @
        [LogError ''Starting render pass while already in render pass'']\<rparr>))
   \<and> (\<not> in_renderpass c4 \<longrightarrow>
      stop_render_pass c4 = Inr (c4\<lparr>trace := trace c4 @
        [LogError ''Stopping render pass while not in render pass'']\<rparr>))
   \<and> (\<not> is_recording c5 \<longrightarrow>
      stop_recording ext notif1 notif2 c5 = Inr (c5\<lparr>trace := trace c5 @
        [LogError ''Stopping recording while not recording'']\<rparr>))"
  by (simp add: start_recording_def start_render_pass_def stop_render_pass_def
      stop_recording_def log_error_def emit_def)

theorem protocol_violations_are_noops_witness:
  "is_recording (example_context\<lparr>is_recording := True\<rparr>)
   \<and> start_recording (example_context\<lparr>is_recording := True\<rparr>)
       = Inr (example_context\<lparr>is_recording := True,
           trace := [LogError ''Attempt to start recording while already recording'']\<rparr>)
   \<and> render_target (example_context\<lparr>render_target := None\<rparr>) = None
   \<and> start_recording (example_context\<lparr>render_target := None\<rparr>)
       = Inr (example_context\<lparr>render_target := None,
           trace := [LogError ''Recording started without a set command buffer'']\<rparr>)
   \<and> in_renderpass (example_context\<lparr>in_renderpass := True\<rparr>)
   \<and> start_render_pass (example_context\<lparr>in_renderpass := True\<rparr>)
       = Inr (example_context\<lparr>in_renderpass := True,
           trace := [LogError ''Starting render pass while already in render pass'']\<rparr>)
   \<and> stop_render_pass example_context
       = Inr (example_context\<lparr>trace :=
           [LogError ''Stopping render pass while not in render pass'']\<rparr>)
   \<and> stop_recording example_extern example_notif1 example_notif2 example_context
       = Inr (example_context\<lparr>trace := [LogError ''Stopping recording while not recording'']\<rparr>)"
  using protocol_violations_are_noops [of "example_context\<lparr>is_recording := True\<rparr>"
      "example_context\<lparr>render_target := None\<rparr>" "example_context\<lparr>in_renderpass := True\<rparr>"
      example_context example_context example_extern example_notif1 example_notif2]
  by (simp add: example_context_def)

section \<open>Submission\<close>

text \<open>
  C7. In a \<open>stop_recording\<close> that succeeds on a recording context: the fence is the one at
  the bound target's \<open>fence_idx\<close>; \<open>fence_idx\<close> then advances, back to 0 at the size of
  the pool; the call makes one queue submission, of the pre-render buffer followed by the
  primary buffer, with that fence; the fence is appended to the fences of the current
  frame; and with memory mapping enabled the queue receives a \<open>NotificationRequest\<close> with
  the two notifications and the fence, followed by one \<open>PostSurfaceSyncRequest\<close> for the
  handle the surface sync of this call produced, if it produced one (it produces at most
  one).
\<close>

theorem stop_recording_submission:
  assumes "is_recording c" and "stop_recording ext notif1 notif2 c = Inr c'"
  shows "\<exists>p fence. render_target c = Some p
           \<and> fence = fences (render_targets c ! p) ! fence_idx (render_targets c ! p)
           \<and> fence_idx (render_targets c' ! p) =
               (if fence_idx (render_targets c ! p) + 1 = length (fences (render_targets c ! p))
                then 0 else fence_idx (render_targets c ! p) + 1)
           \<and> List.map_filter submission (new_events c c')
               = [([prerender_cmd c, render_cmd c], fence)]
           \<and> rendered_fences (frames c' ! current_frame_idx c)
               = rendered_fences (frames c ! current_frame_idx c) @ [fence]
           \<and> request_queue c' = request_queue c @
               (if support_memory_mapping c
                then NotificationRequest notif1 notif2 fence
                     # map PostSurfaceSyncRequest
                         (List.map_filter sync_result (new_events c c'))
                else [])
           \<and> length (List.map_filter sync_result (new_events c c')) \<le> 1"
proof -
  from assms(2,1) obtain p si es where
    p: "render_target c = Some p" "p < length (render_targets c)"
      "fence_idx (render_targets c ! p) < length (fences (render_targets c ! p))"
      "current_frame_idx c < length (frames c)" and
    es: "List.map_filter submission es = []"
      "List.map_filter sync_result es = (case si of None \<Rightarrow> [] | Some h \<Rightarrow> [h])" and
    fr: "frames c' = (frames c)[current_frame_idx c := (frames c ! current_frame_idx c)
         \<lparr>rendered_fences := rendered_fences (frames c ! current_frame_idx c)
            @ [fences (render_targets c ! p) ! fence_idx (render_targets c ! p)]\<rparr>]" and
    q: "request_queue c' = request_queue c @
         (if support_memory_mapping c
          then NotificationRequest notif1 notif2
                 (fences (render_targets c ! p) ! fence_idx (render_targets c ! p))
               # (case si of None \<Rightarrow> [] | Some h \<Rightarrow> [PostSurfaceSyncRequest h])
          else [])" and
    t: "trace c' = trace c @ es @
         [CmdEnd (prerender_cmd c), CmdEnd (render_cmd c),
          QueueSubmit [prerender_cmd c, render_cmd c]
            (fences (render_targets c ! p) ! fence_idx (render_targets c ! p))]"
    by (rule stop_recording_cases)
  have n: "new_events c c' = es @
         [CmdEnd (prerender_cmd c), CmdEnd (render_cmd c),
          QueueSubmit [prerender_cmd c, render_cmd c]
            (fences (render_targets c ! p) ! fence_idx (render_targets c ! p))]"
    using t by (rule new_events_append)
  have sub: "List.map_filter submission (new_events c c')
      = [([prerender_cmd c, render_cmd c],
          fences (render_targets c ! p) ! fence_idx (render_targets c ! p))]"
    using es(1) by (simp add: n map_filter_def)
  have syn: "map PostSurfaceSyncRequest (List.map_filter sync_result (new_events c c'))
      = (case si of None \<Rightarrow> [] | Some h \<Rightarrow> [PostSurfaceSyncRequest h])"
    using es(2) by (cases si) (simp_all add: n map_filter_def)
  have one: "length (List.map_filter sync_result (new_events c c')) \<le> 1"
    using es(2) by (cases si) (simp_all add: n map_filter_def)
  have fi: "fence_idx (render_targets c' ! p) =
      (if fence_idx (render_targets c ! p) + 1 = length (fences (render_targets c ! p))
       then 0 else fence_idx (render_targets c ! p) + 1)"
    by (rule stop_recording_pools(6) [OF assms(2,1) p(1)])
  have rf: "rendered_fences (frames c' ! current_frame_idx c)
      = rendered_fences (frames c ! current_frame_idx c)
        @ [fences (render_targets c ! p) ! fence_idx (render_targets c ! p)]"
    using p(4) by (simp add: fr)
  from p(1) fi sub rf q syn one show ?thesis by simp
qed

theorem stop_recording_submission_witness:
  "is_recording example_recording
   \<and> (\<exists>c'. stop_recording example_extern example_notif1 example_notif2 example_recording = Inr c'
         \<and> fence_idx (render_targets c' ! 0) = 1
         \<and> List.map_filter submission (new_events example_recording c')
             = [([Some 20, Some 10], 30)]
         \<and> rendered_fences (frames c' ! 0) = [30]
         \<and> request_queue c'
             = [NotificationRequest example_notif1 example_notif2 30, PostSurfaceSyncRequest 50])"
proof -
  have a: "is_recording example_recording"
    by (simp add: example_defs example_recording_def)
  have "\<exists>c'. stop_recording example_extern example_notif1 example_notif2 example_recording = Inr c'
      \<and> trace c' = [EndRenderPass (Some 10), PerformSurfaceSync (Some 50), CmdEnd (Some 20),
           CmdEnd (Some 10), QueueSubmit [Some 20, Some 10] 30]"
    by (simp add: stop_recording_defs example_defs example_recording_def Let_def)
  then obtain c' where
    s: "stop_recording example_extern example_notif1 example_notif2 example_recording = Inr c'" and
    t: "trace c' = [EndRenderPass (Some 10), PerformSurfaceSync (Some 50), CmdEnd (Some 20),
           CmdEnd (Some 10), QueueSubmit [Some 20, Some 10] 30]"
    by blast
  have n: "new_events example_recording c' = trace c'"
    by (simp add: new_events_def example_defs example_recording_def)
  from stop_recording_submission [OF a s, unfolded n t]
  have "fence_idx (render_targets c' ! 0) = 1
         \<and> List.map_filter submission (trace c') = [([Some 20, Some 10], 30)]
         \<and> rendered_fences (frames c' ! 0) = [30]
         \<and> request_queue c'
             = [NotificationRequest example_notif1 example_notif2 30, PostSurfaceSyncRequest 50]"
    by (simp add: t map_filter_def example_defs example_recording_def)
  then have "fence_idx (render_targets c' ! 0) = 1
         \<and> List.map_filter submission (new_events example_recording c')
             = [([Some 20, Some 10], 30)]
         \<and> rendered_fences (frames c' ! 0) = [30]
         \<and> request_queue c'
             = [NotificationRequest example_notif1 example_notif2 30, PostSurfaceSyncRequest 50]"
    by (simp only: n)
  with a s show ?thesis by blast
qed

section \<open>The null colour surface\<close>

text \<open>
  C8. When the colour surface of the record state has a null data address, a
  \<open>set_context\<close> that returns has asked the render pass cache once, for the format
  \<open>eR8G8B8A8Unorm\<close> (with the \<open>zlsControl\<close> of the depth-stencil surface), has asked the
  framebuffer lookup once, with a null colour surface, and leaves the record state with
  gamma correction off, \<open>downscale\<close> and \<open>is_maskupdate\<close> false and the base format
  \<open>U8U8U8U8\<close>.
\<close>

theorem set_context_null_color_surface:
  assumes "data (color_surface (record_state c)) = 0" and "set_context ext rt c = Inr c'"
  shows "List.map_filter render_pass_request (new_events c c')
           = [(eR8G8B8A8Unorm, zlsControl (depth_stencil_surface (record_state c)))]
       \<and> List.map_filter framebuffer_request (new_events c c') = [None]
       \<and> \<not> is_gamma_corrected (record_state c')
       \<and> \<not> downscale (color_surface (record_state c'))
       \<and> \<not> is_maskupdate (record_state c')
       \<and> color_base_format (record_state c') = SCE_GXM_COLOR_BASE_FORMAT_U8U8U8U8"
proof -
  from assms(2) obtain p es where
    d: "downscale (color_surface (record_state c'))
       \<longleftrightarrow> downscale (color_surface (record_state c))
           \<and> data (color_surface (record_state c)) \<noteq> 0" and
    n: "data (color_surface (record_state c)) = 0 \<Longrightarrow>
       \<not> is_gamma_corrected (record_state c') \<and> \<not> is_maskupdate (record_state c')
       \<and> color_base_format (record_state c') = SCE_GXM_COLOR_BASE_FORMAT_U8U8U8U8" and
    t: "trace c' = trace c @ es" and
    r: "data (color_surface (record_state c)) = 0 \<Longrightarrow>
       List.map_filter render_pass_request es
         = [(eR8G8B8A8Unorm, zlsControl (depth_stencil_surface (record_state c)))]
       \<and> List.map_filter framebuffer_request es = [None]"
    by (rule set_context_cases) blast
  have "new_events c c' = es" using t by (rule new_events_append)
  with d n [OF assms(1)] r [OF assms(1)] assms(1) show ?thesis by simp
qed

theorem set_context_null_color_surface_witness:
  "data (color_surface (record_state example_null_surface)) = 0
   \<and> gamma (color_surface (record_state example_null_surface)) \<noteq> 0
   \<and> translate_format example_extern
        (get_base_format example_extern
          (colorFormat (color_surface (record_state example_null_surface)))) = OtherFormat 1
   \<and> (\<exists>c'. set_context example_extern None example_null_surface = Inr c'
         \<and> List.map_filter render_pass_request (new_events example_null_surface c')
             = [(eR8G8B8A8Unorm, 0)]
         \<and> List.map_filter framebuffer_request (new_events example_null_surface c') = [None]
         \<and> \<not> is_gamma_corrected (record_state c')
         \<and> \<not> downscale (color_surface (record_state c'))
         \<and> \<not> is_maskupdate (record_state c')
         \<and> color_base_format (record_state c') = SCE_GXM_COLOR_BASE_FORMAT_U8U8U8U8)"
proof -
  have a: "data (color_surface (record_state example_null_surface)) = 0"
    "gamma (color_surface (record_state example_null_surface)) \<noteq> 0"
    "translate_format example_extern
        (get_base_format example_extern
          (colorFormat (color_surface (record_state example_null_surface)))) = OtherFormat 1"
    by (simp_all add: example_defs example_null_surface_def)
  obtain c' where s: "set_context example_extern None example_null_surface = Inr c'"
    by (simp add: set_context_defs example_defs example_null_surface_def Let_def)
  have z: "zlsControl (depth_stencil_surface (record_state example_null_surface)) = 0"
    by (simp add: example_defs example_null_surface_def)
  from set_context_null_color_surface [OF a(1) s, unfolded z] a s show ?thesis by blast
qed

section \<open>Without memory mapping\<close>



section \<open>The fence ring\<close>

text \<open>
  C10. If \<open>fence_idx\<close> of a render target is a valid index of its fence pool, it still is
  after a \<open>start_recording\<close> and after a \<open>stop_recording\<close> that return. This holds for every
  render target of the store, bound or not. Moreover \<open>start_recording\<close> leaves \<open>fence_idx\<close>
  as it is and never shrinks the pool.
\<close>

theorem fence_idx_stays_valid:
  assumes "fence_idx (render_targets c ! q) < length (fences (render_targets c ! q))"
  shows "(start_recording c = Inr c1 \<longrightarrow>
            fence_idx (render_targets c1 ! q) < length (fences (render_targets c1 ! q))
            \<and> fence_idx (render_targets c1 ! q) = fence_idx (render_targets c ! q)
            \<and> length (fences (render_targets c ! q)) \<le> length (fences (render_targets c1 ! q)))
       \<and> (stop_recording ext notif1 notif2 c = Inr c2 \<longrightarrow>
            fence_idx (render_targets c2 ! q) < length (fences (render_targets c2 ! q)))"
proof -
  have start: "fence_idx (render_targets c1 ! q) < length (fences (render_targets c1 ! q))
      \<and> fence_idx (render_targets c1 ! q) = fence_idx (render_targets c ! q)
      \<and> length (fences (render_targets c ! q)) \<le> length (fences (render_targets c1 ! q))"
    if s: "start_recording c = Inr c1"
  proof (cases "\<not> is_recording c \<and> render_target c = Some q")
    case True
    then have a: "\<not> is_recording c" "render_target c = Some q" by simp_all
    have "length (fences (render_targets c ! q)) \<le> length (fences (render_targets c1 ! q))"
      by (simp add: start_recording_pools(1) [OF s a] length_insert_at)
    with assms start_recording_extent(4) [OF s, of q] show ?thesis by simp
  next
    case other: False
    have "render_targets c1 ! q = render_targets c ! q"
    proof (cases "is_recording c")
      case True
      with s show ?thesis by (auto simp: start_recording_def log_error_def emit_def)
    next
      case False
      with other have "render_target c \<noteq> Some q" by simp
      with s show ?thesis by (rule start_recording_others)
    qed
    with assms show ?thesis by simp
  qed
  have stop: "fence_idx (render_targets c2 ! q) < length (fences (render_targets c2 ! q))"
    if s: "stop_recording ext notif1 notif2 c = Inr c2"
  proof (cases "is_recording c \<and> render_target c = Some q")
    case True
    then have a: "is_recording c" "render_target c = Some q" by simp_all
    from stop_recording_pools(5,6) [OF s a] assms show ?thesis by auto
  next
    case other: False
    have "render_targets c2 ! q = render_targets c ! q"
    proof (cases "is_recording c")
      case False
      with s show ?thesis by (auto simp: stop_recording_def log_error_def emit_def)
    next
      case True
      with other have "render_target c \<noteq> Some q" by simp
      with s show ?thesis by (rule stop_recording_others)
    qed
    with assms show ?thesis by simp
  qed
  from start stop show ?thesis by blast
qed

theorem fence_idx_stays_valid_witness:
  "fence_idx (render_targets example_context ! 0)
     < length (fences (render_targets example_context ! 0))
   \<and> (\<exists>c1. start_recording example_context = Inr c1
         \<and> fence_idx (render_targets c1 ! 0) < length (fences (render_targets c1 ! 0)))
   \<and> fence_idx (render_targets example_recording ! 0)
     < length (fences (render_targets example_recording ! 0))
   \<and> (\<exists>c2. stop_recording example_extern example_notif1 example_notif2 example_recording = Inr c2
         \<and> fence_idx (render_targets c2 ! 0) < length (fences (render_targets c2 ! 0)))
   \<and> fence_idx (render_targets
        (example_recording\<lparr>render_targets := [example_target\<lparr>fence_idx := 1\<rparr>]\<rparr>) ! 0) = 1
   \<and> length (fences (render_targets
        (example_recording\<lparr>render_targets := [example_target\<lparr>fence_idx := 1\<rparr>]\<rparr>) ! 0)) = 2
   \<and> (\<exists>c2. stop_recording example_extern example_notif1 example_notif2
              (example_recording\<lparr>render_targets := [example_target\<lparr>fence_idx := 1\<rparr>]\<rparr>)
            = Inr c2
         \<and> fence_idx (render_targets c2 ! 0) = 0
         \<and> fence_idx (render_targets c2 ! 0) < length (fences (render_targets c2 ! 0)))
   \<and> (\<exists>c1. start_recording
              (example_context\<lparr>render_targets :=
                 [example_target\<lparr>cmd_buffer_idx := 2, last_used_frame := 5\<rparr>]\<rparr>) = Inr c1
         \<and> length (fences (render_targets c1 ! 0)) = 3
         \<and> fence_idx (render_targets c1 ! 0) < length (fences (render_targets c1 ! 0)))"
proof -
  let ?wrap = "example_recording\<lparr>render_targets := [example_target\<lparr>fence_idx := 1\<rparr>]\<rparr>"
  let ?full = "example_context\<lparr>render_targets :=
                 [example_target\<lparr>cmd_buffer_idx := 2, last_used_frame := 5\<rparr>]\<rparr>"
  have a: "fence_idx (render_targets example_context ! 0)
     < length (fences (render_targets example_context ! 0))"
    by (simp add: example_defs example_recording_def)
  have b: "fence_idx (render_targets example_recording ! 0)
     < length (fences (render_targets example_recording ! 0))"
    by (simp add: example_defs example_recording_def)
  have w: "fence_idx (render_targets ?wrap ! 0) = 1"
    "length (fences (render_targets ?wrap ! 0)) = 2"
    by (simp_all add: example_defs example_recording_def)
  then have w': "fence_idx (render_targets ?wrap ! 0) < length (fences (render_targets ?wrap ! 0))"
    by simp
  have f: "fence_idx (render_targets ?full ! 0) < length (fences (render_targets ?full ! 0))"
    by (simp add: example_defs)
  obtain c1 where c1: "start_recording example_context = Inr c1"
    by (simp add: start_recording_defs reset_idx_def example_defs example_recording_def Let_def)
  obtain c2 where
    c2: "stop_recording example_extern example_notif1 example_notif2 example_recording = Inr c2"
    by (simp add: stop_recording_defs example_defs example_recording_def Let_def)
  have "\<exists>c3. stop_recording example_extern example_notif1 example_notif2 ?wrap = Inr c3
      \<and> fence_idx (render_targets c3 ! 0) = 0"
    by (simp add: stop_recording_defs example_defs example_recording_def Let_def)
  then obtain c3 where
    c3: "stop_recording example_extern example_notif1 example_notif2 ?wrap = Inr c3"
      "fence_idx (render_targets c3 ! 0) = 0"
    by blast
  have "\<exists>c4. start_recording ?full = Inr c4 \<and> length (fences (render_targets c4 ! 0)) = 3"
    by (simp add: start_recording_defs reset_idx_def example_defs insert_at_def Let_def)
  then obtain c4 where
    c4: "start_recording ?full = Inr c4" "length (fences (render_targets c4 ! 0)) = 3"
    by blast
  from fence_idx_stays_valid [OF a, of c1] c1
  have r1: "fence_idx (render_targets c1 ! 0) < length (fences (render_targets c1 ! 0))"
    by blast
  from fence_idx_stays_valid [OF b, of _ example_extern example_notif1 example_notif2 c2] c2
  have r2: "fence_idx (render_targets c2 ! 0) < length (fences (render_targets c2 ! 0))"
    by blast
  from fence_idx_stays_valid [OF w', of _ example_extern example_notif1 example_notif2 c3] c3(1)
  have r3: "fence_idx (render_targets c3 ! 0) < length (fences (render_targets c3 ! 0))"
    by blast
  from fence_idx_stays_valid [OF f, of c4] c4(1)
  have r4: "fence_idx (render_targets c4 ! 0) < length (fences (render_targets c4 ! 0))"
    by blast
  from a b w c1 c2 c3 c4 r1 r2 r3 r4 show ?thesis by blast
qed

end
